theory Spec2Isabelle
  imports Complex_Main
begin

section \<open>Data model of the document-store backend\<close>

text \<open>
  Object identifiers are opaque values that the code only compares for equality
  (through \<^verbatim>\<open>toString()\<close>); they are modelled as natural numbers. Roles, grades,
  programs, material types, permissions and session statuses are strings, as in the
  source. A collection is the list of its documents.

  Free text (names, titles, descriptions, tags, paths) is trimmed by the code, and
  \<^verbatim>\<open>trim\<close> looks at characters beyond ASCII. Such text is kept as the sequence of its
  UTF-16 code units, each a natural number; \<open>ascii\<close> turns a literal into that form.
\<close>

type_synonym oid = nat

type_synonym ustring = "nat list"

definition ascii :: "string \<Rightarrow> ustring" where
  "ascii s = map of_char s"

datatype error =
    ValidationError
  | InvalidFolder
  | DuplicateName
  | NotFound
  | AccessDenied
  | NoFile
  | FileMissing
  | ServerError

record user =
  u_id :: oid
  u_role :: string
  u_grade :: string
  u_program :: string

record share =
  sh_user :: oid
  sh_permission :: string

text \<open>
  A material document has the fields of the material schema. The schema declares no
  share list (the folder schema does), so a material document never holds one.
\<close>

record material =
  m_id :: oid
  m_title :: ustring
  m_description :: "ustring option"
  m_type :: string
  m_fileName :: "string option"
  m_filePath :: "string option"
  m_fileSize :: "nat option"
  m_url :: "string option"
  m_folder :: "oid option"
  m_owner :: oid
  m_course :: string
  m_grade :: string
  m_program :: string
  m_tags :: "ustring list"
  m_isPublic :: bool
  m_downloadCount :: nat
  m_viewCount :: nat
  m_dueDate :: "string option"
  m_priority :: string
  m_createdAt :: nat

record folder =
  f_id :: oid
  f_name :: ustring
  f_description :: "ustring option"
  f_parentFolder :: "oid option"
  f_owner :: oid
  f_course :: string
  f_grade :: string
  f_program :: string
  f_color :: string
  f_icon :: string
  f_isPublic :: bool
  f_sharedWith :: "share list"
  f_tags :: "ustring list"
  f_path :: ustring
  f_createdAt :: nat

record upload =
  up_originalname :: string
  up_path :: string
  up_size :: nat

definition typeEnum :: "string list" where
  "typeEnum = [''pdf'', ''doc'', ''docx'', ''ppt'', ''pptx'', ''video'', ''image'', ''link'',
               ''quiz'', ''assignment'']"

definition courseEnum :: "string list" where
  "courseEnum = [''Biochemistry'', ''Cell Biology'', ''Animal Behavior'', ''Evolution'',
                 ''Photosynthesis'', ''Cell Division'', ''Cell Respiration'', ''General Biology'']"

definition gradeEnum :: "string list" where
  "gradeEnum = [''9'', ''10'', ''11'', ''12'']"

definition programEnum :: "string list" where
  "programEnum = [''EST'', ''ACT'', ''Both'']"

definition priorityEnum :: "string list" where
  "priorityEnum = [''low'', ''medium'', ''high'']"

text \<open>
  \<^verbatim>\<open>trim\<close> (of the schema and of the request validators) removes white space at both
  ends of a string. White space is what the language counts as such: tab, line feed,
  vertical tab, form feed, carriage return, space, no-break space, the other space
  separators of Unicode (U+1680, U+2000 to U+200A, U+202F, U+205F, U+3000), the line
  and paragraph separators (U+2028, U+2029) and the byte order mark (U+FEFF).
\<close>

definition isSpace :: "nat \<Rightarrow> bool" where
  "isSpace c =
     (c \<in> {0x09, 0x0A, 0x0B, 0x0C, 0x0D, 0x20, 0xA0, 0x1680, 0x2028, 0x2029, 0x202F, 0x205F,
            0x3000, 0xFEFF}
      \<or> (0x2000 \<le> c \<and> c \<le> 0x200A))"

definition trim :: "ustring \<Rightarrow> ustring" where
  "trim s = rev (dropWhile isSpace (rev (dropWhile isSpace s)))"

section \<open>Material catalog: listing and reading\<close>

text \<open>
  The handlers of the materials router read \<^verbatim>\<open>material.sharedWith\<close>. The material
  schema declares no such path, so the property is undefined on every material
  document: \<open>None\<close>.
\<close>

definition m_sharedWith :: "material \<Rightarrow> share list option" where
  "m_sharedWith m = None"





definition truthy :: "'a list option \<Rightarrow> bool" where
  "truthy v = (case v of None \<Rightarrow> False | Some s \<Rightarrow> s \<noteq> [])"

definition orEmpty :: "'a list option \<Rightarrow> 'a list" where
  "orEmpty v = (case v of None \<Rightarrow> [] | Some s \<Rightarrow> s)"





text \<open>
  \<^verbatim>\<open>router.get('/:id')\<close>: look the material up, check access, then add one to the
  view counter and save the document. The access check of a student is
  \<^verbatim>\<open>material.isPublic || material.sharedWith.some(...)\<close>: for a public material the
  second operand is not evaluated; for any other, calling \<^verbatim>\<open>some\<close> on the undefined
  share list throws, and the handler answers 500. Any other role must be the owner, or
  is answered 403. \<open>accessCheck\<close> gives the error the check ends in, if any, and
  \<open>readAccess\<close> says that the check lets the request through.
\<close>

fun findById :: "material list \<Rightarrow> oid \<Rightarrow> material option" where
  "findById [] i = None"
| "findById (m # ms) i = (if m_id m = i then Some m else findById ms i)"

fun saveMaterial :: "material \<Rightarrow> material list \<Rightarrow> material list" where
  "saveMaterial d [] = []"
| "saveMaterial d (m # ms) = (if m_id m = m_id d then d # ms else m # saveMaterial d ms)"

definition accessCheck :: "user \<Rightarrow> material \<Rightarrow> error option" where
  "accessCheck u m =
     (if u_role u = ''student''
      then (if m_isPublic m then None
            else (case m_sharedWith m of
                    None \<Rightarrow> Some ServerError
                  | Some shs \<Rightarrow>
                      if list_ex (\<lambda>sh. sh_user sh = u_id u) shs then None
                      else Some AccessDenied))
      else if m_owner m \<noteq> u_id u then Some AccessDenied
      else None)"

definition readAccess :: "user \<Rightarrow> material \<Rightarrow> bool" where
  "readAccess u m = (accessCheck u m = None)"

definition getMaterial ::
  "material list \<Rightarrow> user \<Rightarrow> oid \<Rightarrow> error + (material \<times> material list)" where
  "getMaterial ms u i =
     (case findById ms i of
        None \<Rightarrow> Inl NotFound
      | Some m \<Rightarrow>
          (case accessCheck u m of
             Some e \<Rightarrow> Inl e
           | None \<Rightarrow>
               (let m' = m\<lparr>m_viewCount := m_viewCount m + 1\<rparr>
                in Inr (m', saveMaterial m' ms))))"

text \<open>
  \<^verbatim>\<open>router.get('/:id/download')\<close>: the same access check, then the stored file path
  must be present and the file must exist on disk (\<open>fs\<close> lists the existing paths)
  before the download counter is incremented.
\<close>

definition downloadMaterial ::
  "material list \<Rightarrow> string list \<Rightarrow> user \<Rightarrow> oid \<Rightarrow> error + (material \<times> material list)" where
  "downloadMaterial ms fs u i =
     (case findById ms i of
        None \<Rightarrow> Inl NotFound
      | Some m \<Rightarrow>
          (case accessCheck u m of
             Some e \<Rightarrow> Inl e
           | None \<Rightarrow>
               (case m_filePath m of
                  None \<Rightarrow> Inl NoFile
                | Some p \<Rightarrow>
                    if p = [] then Inl NoFile
                    else if p \<notin> set fs then Inl FileMissing
                    else (let m' = m\<lparr>m_downloadCount := m_downloadCount m + 1\<rparr>
                          in Inr (m', saveMaterial m' ms)))))"

section \<open>Sharing a material\<close>

text \<open>
  \<^verbatim>\<open>router.post('/:id/share')\<close>, after the middleware for authentication and role:
  the request is validated (a non-empty array of student ids, permission \<^verbatim>\<open>read\<close>
  or \<^verbatim>\<open>write\<close>), the material is looked up by id and owner, and for every student id the loop calls \<^verbatim>\<open>material.sharedWith.find\<close>
  to update the first share entry of that user, or to push a new entry when there is
  none. On a share list the loop works on the live array, so an id repeated in the
  request meets the entry pushed for it earlier. On the undefined share list of a
  material document the first call throws, and the handler answers 500.
\<close>

fun findOneOwned :: "material list \<Rightarrow> oid \<Rightarrow> oid \<Rightarrow> material option" where
  "findOneOwned [] i ow = None"
| "findOneOwned (m # ms) i ow =
     (if m_id m = i \<and> m_owner m = ow then Some m else findOneOwned ms i ow)"

fun setPermission :: "share list \<Rightarrow> oid \<Rightarrow> string \<Rightarrow> share list" where
  "setPermission [] sid p = []"
| "setPermission (sh # shs) sid p =
     (if sh_user sh = sid then sh\<lparr>sh_permission := p\<rparr> # shs
      else sh # setPermission shs sid p)"

definition upsertShare :: "share list \<Rightarrow> oid \<Rightarrow> string \<Rightarrow> share list" where
  "upsertShare shs sid p =
     (if \<not> list_ex (\<lambda>sh. sh_user sh = sid) shs
      then shs @ [\<lparr>sh_user = sid, sh_permission = p\<rparr>]
      else setPermission shs sid p)"

fun shareLoop :: "share list option \<Rightarrow> oid list \<Rightarrow> string \<Rightarrow> error + share list option" where
  "shareLoop sw [] p = Inr sw"
| "shareLoop None (sid # sids) p = Inl ServerError"
| "shareLoop (Some shs) (sid # sids) p = shareLoop (Some (upsertShare shs sid p)) sids p"

text \<open>
  After the loop the document is saved. A share list is no path of the schema, so
  saving writes none, and the stored document is as before.
\<close>

definition shareMaterial ::
  "material list \<Rightarrow> user \<Rightarrow> oid \<Rightarrow> oid list \<Rightarrow> string \<Rightarrow> error + (share list option \<times> material list)" where
  "shareMaterial ms u i studentIds permission =
     (if studentIds = [] \<or> permission \<notin> {''read'', ''write''} then Inl ValidationError
      else case findOneOwned ms i (u_id u) of
        None \<Rightarrow> Inl NotFound
      | Some m \<Rightarrow>
          (case shareLoop (m_sharedWith m) studentIds permission of
             Inl e \<Rightarrow> Inl e
           | Inr sw \<Rightarrow> Inr (sw, saveMaterial m ms)))"

section \<open>Video-conference sessions\<close>

record attendee =
  a_student :: oid
  a_joinedAt :: nat

record zoomSession =
  z_id :: oid
  z_title :: ustring
  z_description :: "ustring option"
  z_course :: string
  z_grade :: string
  z_program :: string
  z_teacher :: oid
  z_zoomMeetingId :: string
  z_scheduledTime :: nat
  z_duration :: nat
  z_status :: string
  z_attendees :: "attendee list"
  z_materials :: "oid list"

record sessionUpdate =
  su_title :: "ustring option"
  su_description :: "ustring option"
  su_scheduledTime :: "nat option"
  su_duration :: "nat option"
  su_status :: "string option"

text \<open>
  \<^verbatim>\<open>router.put('/sessions/:id')\<close>: the session is looked up by id and teacher; every
  truthy field of the request body overwrites the stored one (the description whenever
  it is present); the call to the conferencing provider is best effort and changes
  nothing locally; \<^verbatim>\<open>save()\<close> runs the schema validators, where the trimmed title
  must not be empty and the status must be one of the four enumerated values, and a
  validation failure is answered with 500.
\<close>

definition statusEnum :: "string list" where
  "statusEnum = [''scheduled'', ''started'', ''ended'', ''cancelled'']"

fun findSession :: "zoomSession list \<Rightarrow> oid \<Rightarrow> oid \<Rightarrow> zoomSession option" where
  "findSession [] i t = None"
| "findSession (z # zs) i t =
     (if z_id z = i \<and> z_teacher z = t then Some z else findSession zs i t)"

fun sessionById :: "zoomSession list \<Rightarrow> oid \<Rightarrow> zoomSession option" where
  "sessionById [] i = None"
| "sessionById (z # zs) i = (if z_id z = i then Some z else sessionById zs i)"

fun saveSession :: "zoomSession \<Rightarrow> zoomSession list \<Rightarrow> zoomSession list" where
  "saveSession d [] = []"
| "saveSession d (z # zs) = (if z_id z = z_id d then d # zs else z # saveSession d zs)"

definition applySessionUpdate :: "zoomSession \<Rightarrow> sessionUpdate \<Rightarrow> zoomSession" where
  "applySessionUpdate z r =
     (let z1 = (if truthy (su_title r) then z\<lparr>z_title := trim (orEmpty (su_title r))\<rparr> else z);
          z2 = (case su_description r of None \<Rightarrow> z1 | Some d \<Rightarrow> z1\<lparr>z_description := Some (trim d)\<rparr>);
          z3 = (case su_scheduledTime r of None \<Rightarrow> z2 | Some t \<Rightarrow> z2\<lparr>z_scheduledTime := t\<rparr>);
          z4 = (case su_duration r of None \<Rightarrow> z3
                | Some d \<Rightarrow> if d = 0 then z3 else z3\<lparr>z_duration := d\<rparr>)
      in (if truthy (su_status r) then z4\<lparr>z_status := orEmpty (su_status r)\<rparr> else z4))"

definition updateSession ::
  "zoomSession list \<Rightarrow> user \<Rightarrow> oid \<Rightarrow> sessionUpdate \<Rightarrow> error + (zoomSession \<times> zoomSession list)" where
  "updateSession zs u i r =
     (case findSession zs i (u_id u) of
        None \<Rightarrow> Inl NotFound
      | Some z \<Rightarrow>
          (let z' = applySessionUpdate z r
           in if z_status z' \<notin> set statusEnum \<or> z_title z' = [] then Inl ServerError
              else Inr (z', saveSession z' zs)))"

text \<open>
  The order the specification expects of the statuses: forward along
  scheduled, started, ended; cancelled is entered from anywhere and never left.
\<close>

definition statusRank :: "string \<Rightarrow> nat" where
  "statusRank st =
     (if st = ''scheduled'' then 0 else if st = ''started'' then 1
      else if st = ''ended'' then 2 else 3)"

definition forwardTransition :: "string \<Rightarrow> string \<Rightarrow> bool" where
  "forwardTransition old new =
     (if old = ''cancelled'' then new = ''cancelled''
      else new = ''cancelled'' \<or> statusRank old \<le> statusRank new)"

section \<open>Creating a material\<close>

record materialRequest =
  r_title :: "ustring option"
  r_description :: "ustring option"
  r_type :: "string option"
  r_url :: "string option"
  r_folder :: "oid option"
  r_course :: "string option"
  r_grade :: "string option"
  r_program :: "string option"
  r_tags :: "ustring option"
  r_dueDate :: "string option"
  r_priority :: "string option"
  r_isPublic :: "string option"
  r_file :: "upload option"

fun splitOn :: "'a \<Rightarrow> 'a list \<Rightarrow> 'a list list" where
  "splitOn c [] = [[]]"
| "splitOn c (x # xs) =
     (if x = c then [] # splitOn c xs
      else (case splitOn c xs of [] \<Rightarrow> [[x]] | w # ws \<Rightarrow> (x # w) # ws))"

definition parseTags :: "ustring option \<Rightarrow> ustring list" where
  "parseTags v = (if truthy v then map trim (splitOn 0x2C (orEmpty v)) else [])"

fun findFolderOwned :: "folder list \<Rightarrow> oid \<Rightarrow> oid \<Rightarrow> folder option" where
  "findFolderOwned [] i ow = None"
| "findFolderOwned (f # fs) i ow =
     (if f_id f = i \<and> f_owner f = ow then Some f else findFolderOwned fs i ow)"

text \<open>
  The request validators of \<^verbatim>\<open>router.post('/')\<close>: a title that is not empty after
  trimming, and type, course, grade and program from their enumerations.
\<close>

definition validMaterialBody :: "materialRequest \<Rightarrow> bool" where
  "validMaterialBody r =
     (trim (orEmpty (r_title r)) \<noteq> []
      \<and> orEmpty (r_type r) \<in> set typeEnum
      \<and> orEmpty (r_course r) \<in> set courseEnum
      \<and> orEmpty (r_grade r) \<in> set gradeEnum
      \<and> orEmpty (r_program r) \<in> set programEnum)"

text \<open>
  The validators of the material schema that \<^verbatim>\<open>save()\<close> runs: required strings
  must be present and not empty, the folder is required, file name and file path are
  required unless the type is \<^verbatim>\<open>link\<close>, the URL is required when it is, and the
  enumerated fields must hold one of their values.
\<close>

definition materialSchemaValid :: "material \<Rightarrow> bool" where
  "materialSchemaValid d =
     (m_title d \<noteq> []
      \<and> m_type d \<in> set typeEnum
      \<and> (m_type d \<noteq> ''link'' \<longrightarrow> truthy (m_fileName d) \<and> truthy (m_filePath d))
      \<and> (m_type d = ''link'' \<longrightarrow> truthy (m_url d))
      \<and> m_folder d \<noteq> None
      \<and> m_course d \<in> set courseEnum
      \<and> m_grade d \<in> set gradeEnum
      \<and> m_program d \<in> set programEnum
      \<and> m_priority d \<in> set priorityEnum)"

definition insertMaterial :: "material \<Rightarrow> material list \<Rightarrow> error + (material \<times> material list)" where
  "insertMaterial d ms =
     (if materialSchemaValid d then Inr (d, ms @ [d]) else Inl ServerError)"

text \<open>
  \<^verbatim>\<open>router.post('/')\<close> of the materials router, after the authentication
  middleware. \<open>nid\<close> is the identifier the driver generates for the new document and
  \<open>now\<close> its creation time.
\<close>

definition createMaterial ::
  "folder list \<Rightarrow> material list \<Rightarrow> user \<Rightarrow> oid \<Rightarrow> nat \<Rightarrow> materialRequest
     \<Rightarrow> error + (material \<times> material list)" where
  "createMaterial fs ms u nid now r =
     (if \<not> validMaterialBody r then Inl ValidationError
      else if (case r_folder r of None \<Rightarrow> False
               | Some f \<Rightarrow> findFolderOwned fs f (u_id u) = None) then Inl InvalidFolder
      else
        (let materialData =
               \<lparr>m_id = nid,
                m_title = trim (orEmpty (r_title r)),
                m_description = map_option trim (r_description r),
                m_type = orEmpty (r_type r),
                m_fileName = None,
                m_filePath = None,
                m_fileSize = None,
                m_url = None,
                m_folder = r_folder r,
                m_owner = u_id u,
                m_course = orEmpty (r_course r),
                m_grade = orEmpty (r_grade r),
                m_program = orEmpty (r_program r),
                m_tags = parseTags (r_tags r),
                m_isPublic = (r_isPublic r = Some ''true''),
                m_downloadCount = 0,
                m_viewCount = 0,
                m_dueDate = (if truthy (r_dueDate r) then r_dueDate r else None),
                m_priority = (if truthy (r_priority r) then orEmpty (r_priority r) else ''medium''),
                m_createdAt = now\<rparr>
         in if r_type r = Some ''link'' then
              (if \<not> truthy (r_url r) then Inl ValidationError
               else insertMaterial (materialData\<lparr>m_url := r_url r\<rparr>) ms)
            else (case r_file r of
                    Some file \<Rightarrow>
                      insertMaterial
                        (materialData\<lparr>m_fileName := Some (up_originalname file),
                                       m_filePath := Some (up_path file),
                                       m_fileSize := Some (up_size file)\<rparr>) ms
                  | None \<Rightarrow> Inl ValidationError)))"

subsection \<open>The relational backend\<close>

text \<open>
  The second server keeps materials in an SQL table. A row has nullable columns for the
  file and the URL; \<^verbatim>\<open>title\<close>, \<^verbatim>\<open>type\<close>, \<^verbatim>\<open>course_id\<close> and \<^verbatim>\<open>owner_id\<close> are
  \<^verbatim>\<open>NOT NULL\<close>; grade, program and priority are checked against their enumerations
  when not null; folder, course and owner are foreign keys.
\<close>

record materialRow =
  row_id :: nat
  row_title :: ustring
  row_description :: "ustring option"
  row_type :: string
  row_file_name :: "string option"
  row_file_path :: "string option"
  row_file_size :: "nat option"
  row_url :: "string option"
  row_folder_id :: "nat option"
  row_course_id :: nat
  row_owner_id :: nat
  row_grade :: "string option"
  row_program :: "string option"
  row_tags :: "ustring option"
  row_is_public :: nat
  row_priority :: string
  row_view_count :: nat
  row_download_count :: nat

record sqlDb =
  db_users :: "nat list"
  db_courses :: "nat list"
  db_folders :: "nat list"
  db_materials :: "materialRow list"

record sqlMaterialRequest =
  s_title :: "ustring option"
  s_description :: "ustring option"
  s_course_id :: "nat option"
  s_folder_id :: "nat option"
  s_type :: "string option"
  s_url :: "string option"
  s_grade :: "string option"
  s_program :: "string option"
  s_tags :: "ustring option"
  s_is_public :: "string option"
  s_priority :: "string option"
  s_file :: "upload option"

definition requireRole :: "string list \<Rightarrow> user \<Rightarrow> bool" where
  "requireRole roles u = (u_role u \<in> set roles)"

definition nullOrIn :: "string option \<Rightarrow> string list \<Rightarrow> bool" where
  "nullOrIn v xs = (case v of None \<Rightarrow> True | Some x \<Rightarrow> x \<in> set xs)"

definition rowConstraints :: "sqlDb \<Rightarrow> materialRow \<Rightarrow> bool" where
  "rowConstraints db row =
     (row_type row \<in> set typeEnum
      \<and> nullOrIn (row_grade row) gradeEnum
      \<and> nullOrIn (row_program row) programEnum
      \<and> row_priority row \<in> set priorityEnum
      \<and> (case row_folder_id row of None \<Rightarrow> True | Some f \<Rightarrow> f \<in> set (db_folders db))
      \<and> row_course_id row \<in> set (db_courses db)
      \<and> row_owner_id row \<in> set (db_users db))"

definition nextRowId :: "materialRow list \<Rightarrow> nat" where
  "nextRowId rows = Suc (fold max (map row_id rows) 0)"

text \<open>
  \<^verbatim>\<open>app.post('/api/materials')\<close> of the relational server: role check, request
  validators (title, integer course id, type), then the type-specific part, which
  copies \<^verbatim>\<open>url\<close> for a link without looking at it, and the \<^verbatim>\<open>INSERT\<close>; a
  constraint violation is answered with 500. The course id arrives as \<open>None\<close> when
  the field is missing or not an integer.
\<close>

definition newRow :: "sqlDb \<Rightarrow> user \<Rightarrow> nat \<Rightarrow> sqlMaterialRequest \<Rightarrow> materialRow" where
  "newRow db u cid r =
     \<lparr>row_id = nextRowId (db_materials db),
      row_title = trim (orEmpty (s_title r)),
      row_description = s_description r,
      row_type = orEmpty (s_type r),
      row_file_name = None,
      row_file_path = None,
      row_file_size = None,
      row_url = None,
      row_folder_id = s_folder_id r,
      row_course_id = cid,
      row_owner_id = u_id u,
      row_grade = s_grade r,
      row_program = s_program r,
      row_tags = s_tags r,
      row_is_public = (if s_is_public r = Some ''true'' then 1 else 0),
      row_priority = (if truthy (s_priority r) then orEmpty (s_priority r) else ''medium''),
      row_view_count = 0,
      row_download_count = 0\<rparr>"

definition insertRow :: "sqlDb \<Rightarrow> materialRow \<Rightarrow> error + (materialRow \<times> sqlDb)" where
  "insertRow db row =
     (if rowConstraints db row then Inr (row, db\<lparr>db_materials := db_materials db @ [row]\<rparr>)
      else Inl ServerError)"

definition sqlCreateMaterial ::
  "sqlDb \<Rightarrow> user \<Rightarrow> sqlMaterialRequest \<Rightarrow> error + (materialRow \<times> sqlDb)" where
  "sqlCreateMaterial db u r =
     (if \<not> requireRole [''teacher'', ''admin''] u then Inl AccessDenied
      else case s_course_id r of
        None \<Rightarrow> Inl ValidationError
      | Some cid \<Rightarrow>
          if trim (orEmpty (s_title r)) = [] \<or> orEmpty (s_type r) \<notin> set typeEnum
          then Inl ValidationError
          else if s_type r = Some ''link''
          then insertRow db (newRow db u cid r\<lparr>row_url := s_url r\<rparr>)
          else (case s_file r of
                  Some file \<Rightarrow>
                    insertRow db
                      (newRow db u cid r\<lparr>row_file_name := Some (up_originalname file),
                                         row_file_path := Some (up_path file),
                                         row_file_size := Some (up_size file)\<rparr>)
                | None \<Rightarrow> Inl ValidationError))"

section \<open>Folder hierarchy\<close>

text \<open>
  The \<^verbatim>\<open>pre('save')\<close> hook of the folder schema ("create path before saving"): with a
  parent, the parent is read from the collection and the path is the parent's stored
  path, a slash and the folder's name; reading \<^verbatim>\<open>path\<close> of a parent that does not
  exist throws. Without a parent the path is the name.
\<close>

fun findFolder :: "folder list \<Rightarrow> oid \<Rightarrow> folder option" where
  "findFolder [] i = None"
| "findFolder (f # fs) i = (if f_id f = i then Some f else findFolder fs i)"

definition preSave :: "folder list \<Rightarrow> folder \<Rightarrow> error + folder" where
  "preSave fs f =
     (case f_parentFolder f of
        None \<Rightarrow> Inr (f\<lparr>f_path := f_name f\<rparr>)
      | Some p \<Rightarrow>
          (case findFolder fs p of
             None \<Rightarrow> Inl ServerError
           | Some parent \<Rightarrow> Inr (f\<lparr>f_path := f_path parent @ ascii ''/'' @ f_name f\<rparr>)))"

definition permissionEnum :: "string list" where
  "permissionEnum = [''read'', ''write'', ''admin'']"

definition folderSchemaValid :: "folder \<Rightarrow> bool" where
  "folderSchemaValid f =
     (f_name f \<noteq> []
      \<and> f_course f \<in> set courseEnum
      \<and> f_grade f \<in> set gradeEnum
      \<and> f_program f \<in> set programEnum
      \<and> list_all (\<lambda>sh. sh_permission sh \<in> set permissionEnum) (f_sharedWith f)
      \<and> f_path f \<noteq> [])"

text \<open>
  \<^verbatim>\<open>save()\<close> of a folder document. The framework validates the document first (its
  own step before saving, ahead of the hooks a schema adds), then runs the hook of the
  schema, and then writes. The validators require a name and a path that are present
  and not empty (a path that is not set is the empty string here) and enumerated fields
  within their values. A failure of either step is an exception, which the handlers
  answer with 500.
\<close>

definition folderSave :: "folder list \<Rightarrow> folder \<Rightarrow> error + folder" where
  "folderSave fs doc = (if \<not> folderSchemaValid doc then Inl ServerError else preSave fs doc)"

record folderRequest =
  fr_name :: "ustring option"
  fr_description :: "ustring option"
  fr_parentFolder :: "oid option"
  fr_course :: "string option"
  fr_grade :: "string option"
  fr_program :: "string option"
  fr_color :: "string option"
  fr_icon :: "string option"
  fr_isPublic :: "bool option"
  fr_tags :: "ustring list option"

definition existsSibling :: "folder list \<Rightarrow> ustring \<Rightarrow> oid option \<Rightarrow> oid \<Rightarrow> bool" where
  "existsSibling fs name parent ow =
     list_ex (\<lambda>f. f_name f = name \<and> f_parentFolder f = parent \<and> f_owner f = ow) fs"

text \<open>
  \<^verbatim>\<open>router.post('/')\<close> of the folders router, after the authentication middleware:
  request validators, the check for a folder of the same name under the same parent
  and owner, construction of the document with the schema defaults, and \<^verbatim>\<open>save()\<close>.
  The request carries no path and the constructor sets none: the path of the new
  document is still unset when \<^verbatim>\<open>save()\<close> validates it. \<open>nid\<close> is the identifier
  generated for the new document and \<open>now\<close> its creation time.
\<close>

definition newFolder :: "user \<Rightarrow> oid \<Rightarrow> nat \<Rightarrow> folderRequest \<Rightarrow> folder" where
  "newFolder u nid now r =
     \<lparr>f_id = nid,
      f_name = trim (orEmpty (fr_name r)),
      f_description = map_option trim (fr_description r),
      f_parentFolder = fr_parentFolder r,
      f_owner = u_id u,
      f_course = orEmpty (fr_course r),
      f_grade = orEmpty (fr_grade r),
      f_program = orEmpty (fr_program r),
      f_color = (case fr_color r of None \<Rightarrow> ''#2c5aa0'' | Some c \<Rightarrow> c),
      f_icon = (case fr_icon r of None \<Rightarrow> ''folder'' | Some c \<Rightarrow> c),
      f_isPublic = (case fr_isPublic r of None \<Rightarrow> False | Some b \<Rightarrow> b),
      f_sharedWith = [],
      f_tags = (case fr_tags r of None \<Rightarrow> [] | Some ts \<Rightarrow> map trim ts),
      f_path = [],
      f_createdAt = now\<rparr>"

definition validFolderBody :: "folderRequest \<Rightarrow> bool" where
  "validFolderBody r =
     (trim (orEmpty (fr_name r)) \<noteq> []
      \<and> orEmpty (fr_course r) \<in> set courseEnum
      \<and> orEmpty (fr_grade r) \<in> set gradeEnum
      \<and> orEmpty (fr_program r) \<in> set programEnum)"

definition createFolder ::
  "folder list \<Rightarrow> user \<Rightarrow> oid \<Rightarrow> nat \<Rightarrow> folderRequest \<Rightarrow> error + (folder \<times> folder list)" where
  "createFolder fs u nid now r =
     (if \<not> validFolderBody r then Inl ValidationError
      else if existsSibling fs (trim (orEmpty (fr_name r))) (fr_parentFolder r) (u_id u)
      then Inl DuplicateName
      else
        (case folderSave fs (newFolder u nid now r) of
           Inl e \<Rightarrow> Inl e
         | Inr doc \<Rightarrow> Inr (doc, fs @ [doc])))"

record folderUpdate =
  fu_name :: "ustring option"
  fu_description :: "ustring option"
  fu_color :: "string option"
  fu_icon :: "string option"
  fu_isPublic :: "bool option"
  fu_tags :: "ustring list option"

fun saveFolder :: "folder \<Rightarrow> folder list \<Rightarrow> folder list" where
  "saveFolder d [] = []"
| "saveFolder d (f # fs) = (if f_id f = f_id d then d # fs else f # saveFolder d fs)"

definition existsOtherSibling :: "folder list \<Rightarrow> ustring \<Rightarrow> folder \<Rightarrow> oid \<Rightarrow> bool" where
  "existsOtherSibling fs name folder ow =
     list_ex (\<lambda>f. f_name f = name \<and> f_parentFolder f = f_parentFolder folder
                  \<and> f_owner f = ow \<and> f_id f \<noteq> f_id folder) fs"

text \<open>
  \<^verbatim>\<open>router.put('/:id')\<close> of the folders router. A name that is present must not be
  empty after trimming. The folder is looked up by id and owner. A new name that differs
  from the stored one is checked against the siblings and assigned; the other fields are
  assigned when present (colour and icon when truthy). \<^verbatim>\<open>save()\<close> validates the
  document, with the path it was loaded with, runs the hook, which recomputes the path
  of this document only, and writes the document back under its id.
\<close>

definition applyFolderUpdate :: "folder \<Rightarrow> folderUpdate \<Rightarrow> folder" where
  "applyFolderUpdate f r =
     (let f1 = (case fu_description r of None \<Rightarrow> f
                | Some d \<Rightarrow> f\<lparr>f_description := Some (trim d)\<rparr>);
          f2 = (if truthy (fu_color r) then f1\<lparr>f_color := orEmpty (fu_color r)\<rparr> else f1);
          f3 = (if truthy (fu_icon r) then f2\<lparr>f_icon := orEmpty (fu_icon r)\<rparr> else f2);
          f4 = (case fu_isPublic r of None \<Rightarrow> f3 | Some b \<Rightarrow> f3\<lparr>f_isPublic := b\<rparr>)
      in (case fu_tags r of None \<Rightarrow> f4 | Some ts \<Rightarrow> f4\<lparr>f_tags := map trim ts\<rparr>))"

definition updateFolder ::
  "folder list \<Rightarrow> user \<Rightarrow> oid \<Rightarrow> folderUpdate \<Rightarrow> error + (folder \<times> folder list)" where
  "updateFolder fs u i r =
     (if (case fu_name r of None \<Rightarrow> False | Some n \<Rightarrow> trim n = []) then Inl ValidationError
      else case findFolderOwned fs i (u_id u) of
        None \<Rightarrow> Inl NotFound
      | Some folder \<Rightarrow>
          (let name = map_option trim (fu_name r);
               renaming = (truthy name \<and> name \<noteq> Some (f_name folder))
           in if renaming \<and> existsOtherSibling fs (orEmpty name) folder (u_id u)
              then Inl DuplicateName
              else
                (let f0 = (if renaming then folder\<lparr>f_name := orEmpty name\<rparr> else folder)
                 in case folderSave fs (applyFolderUpdate f0 r) of
                      Inl e \<Rightarrow> Inl e
                    | Inr doc \<Rightarrow> Inr (doc, saveFolder doc fs))))"

subsection \<open>Recursive deletion\<close>

text \<open>
  The state that deletion works on: the two collections, the paths of the files on
  disk, the paths whose removal the file system refuses, and the trace of what was
  done (the deletions issued to the store, in order, and the outcome of every attempt
  to remove a file; a failed attempt is what the code logs and then ignores).
\<close>

datatype event =
    Unlinked string
  | UnlinkFailed string
  | MaterialsDeleted oid
  | FolderDeleted oid

record store =
  st_folders :: "folder list"
  st_materials :: "material list"
  st_files :: "string list"
  st_protected :: "string list"
  st_trace :: "event list"

definition unlink :: "string \<Rightarrow> store \<Rightarrow> store" where
  "unlink p s =
     (if p \<in> set (st_files s) \<and> p \<notin> set (st_protected s)
      then s\<lparr>st_files := removeAll p (st_files s), st_trace := st_trace s @ [Unlinked p]\<rparr>
      else s\<lparr>st_trace := st_trace s @ [UnlinkFailed p]\<rparr>)"

fun unlinkFiles :: "material list \<Rightarrow> store \<Rightarrow> store" where
  "unlinkFiles [] s = s"
| "unlinkFiles (m # ms) s =
     unlinkFiles ms (if truthy (m_filePath m) then unlink (orEmpty (m_filePath m)) s else s)"

definition deleteMany :: "oid \<Rightarrow> store \<Rightarrow> store" where
  "deleteMany folderId s =
     s\<lparr>st_materials := filter (\<lambda>m. m_folder m \<noteq> Some folderId) (st_materials s),
       st_trace := st_trace s @ [MaterialsDeleted folderId]\<rparr>"

fun removeById :: "oid \<Rightarrow> folder list \<Rightarrow> folder list" where
  "removeById i [] = []"
| "removeById i (f # fs) = (if f_id f = i then fs else f # removeById i fs)"

definition findByIdAndDelete :: "oid \<Rightarrow> store \<Rightarrow> store" where
  "findByIdAndDelete folderId s =
     s\<lparr>st_folders := removeById folderId (st_folders s),
       st_trace := st_trace s @ [FolderDeleted folderId]\<rparr>"

text \<open>
  \<^verbatim>\<open>deleteFolder(folderId)\<close>: read the direct subfolders, delete each of them
  recursively, then read the materials of the folder, try to remove the file of each,
  delete them all, and delete the folder itself. The recursion follows the parent
  links of the stored documents, so the model carries fuel: \<open>None\<close> means the depth
  allowed was not enough.
\<close>

fun deleteFolder :: "nat \<Rightarrow> oid \<Rightarrow> store \<Rightarrow> store option"
  and deleteEach :: "nat \<Rightarrow> oid list \<Rightarrow> store \<Rightarrow> store option" where
  "deleteFolder 0 folderId s = None"
| "deleteFolder (Suc n) folderId s =
     (let subfolders = filter (\<lambda>f. f_parentFolder f = Some folderId) (st_folders s)
      in case deleteEach n (map f_id subfolders) s of
           None \<Rightarrow> None
         | Some s1 \<Rightarrow>
             (let materials = filter (\<lambda>m. m_folder m = Some folderId) (st_materials s1)
              in Some (findByIdAndDelete folderId (deleteMany folderId (unlinkFiles materials s1)))))"
| "deleteEach n [] s = Some s"
| "deleteEach n (c # cs) s =
     (case deleteFolder n c s of None \<Rightarrow> None | Some s' \<Rightarrow> deleteEach n cs s')"

text \<open>
  \<^verbatim>\<open>router.delete('/:id')\<close> of the folders router: only a folder of the caller is
  deleted.
\<close>

definition deleteFolderRoute :: "nat \<Rightarrow> user \<Rightarrow> oid \<Rightarrow> store \<Rightarrow> (error + store) option" where
  "deleteFolderRoute n u i s =
     (case findFolderOwned (st_folders s) i (u_id u) of
        None \<Rightarrow> Some (Inl NotFound)
      | Some folder \<Rightarrow> map_option Inr (deleteFolder n (f_id folder) s))"

text \<open>
  The subtree of a folder: the folder and every folder reached from it through stored
  parent links.
\<close>

inductive_set subtree :: "folder list \<Rightarrow> oid \<Rightarrow> oid set" for fs :: "folder list" and root :: oid where
  root: "root \<in> subtree fs root"
| child: "p \<in> subtree fs root \<Longrightarrow> f \<in> set fs \<Longrightarrow> f_parentFolder f = Some p
          \<Longrightarrow> f_id f \<in> subtree fs root"

definition folderIds :: "store \<Rightarrow> oid set" where
  "folderIds s = f_id ` set (st_folders s)"

text \<open>
  A store is ranked by \<open>rk\<close> when every folder has a smaller rank than its parent: the
  parent links have no cycle. Identifiers are unique in a collection.
\<close>

definition ranked :: "(oid \<Rightarrow> nat) \<Rightarrow> folder list \<Rightarrow> bool" where
  "ranked rk fs = (\<forall>f \<in> set fs. \<forall>p. f_parentFolder f = Some p \<longrightarrow> rk (f_id f) < rk p)"

definition uniqueIds :: "folder list \<Rightarrow> bool" where
  "uniqueIds fs = distinct (map f_id fs)"

text \<open>
  Children first: an event list, run after the events \<open>before\<close>, deletes a folder
  only after the materials of that folder have been deleted and after every folder of
  \<open>fs\<close> that has it as parent has been deleted.
\<close>

definition eventOk :: "folder list \<Rightarrow> event list \<Rightarrow> event \<Rightarrow> bool" where
  "eventOk fs before e =
     (case e of
        FolderDeleted x \<Rightarrow>
          MaterialsDeleted x \<in> set before
          \<and> list_all (\<lambda>f. f_parentFolder f = Some x \<longrightarrow> FolderDeleted (f_id f) \<in> set before) fs
      | _ \<Rightarrow> True)"

fun childrenFirst :: "folder list \<Rightarrow> event list \<Rightarrow> event list \<Rightarrow> bool" where
  "childrenFirst fs before [] = True"
| "childrenFirst fs before (e # evs) =
     (eventOk fs before e \<and> childrenFirst fs (before @ [e]) evs)"

text \<open>
  What one run of the deletion does to a store, whatever the file system answers:
  documents are only removed, identifiers stay unique, no remaining folder or material
  is left pointing at a folder that the run removed, and the trace grows by events that
  account for every removed folder, children first.
\<close>

definition shrinks :: "store \<Rightarrow> store \<Rightarrow> bool" where
  "shrinks s s' =
     (set (st_folders s') \<subseteq> set (st_folders s)
      \<and> set (st_materials s') \<subseteq> set (st_materials s)
      \<and> uniqueIds (st_folders s')
      \<and> (\<forall>f \<in> set (st_folders s'). \<forall>p. f_parentFolder f = Some p \<longrightarrow>
            p \<in> folderIds s \<longrightarrow> p \<in> folderIds s')
      \<and> (\<forall>m \<in> set (st_materials s'). \<forall>g. m_folder m = Some g \<longrightarrow>
            g \<in> folderIds s \<longrightarrow> g \<in> folderIds s')
      \<and> (\<exists>evs. st_trace s' = st_trace s @ evs
            \<and> (\<forall>f \<in> set (st_folders s). f \<notin> set (st_folders s') \<longrightarrow>
                  FolderDeleted (f_id f) \<in> set evs)
            \<and> childrenFirst (st_folders s) [] evs))"

definition deleted :: "oid \<Rightarrow> store \<Rightarrow> store \<Rightarrow> bool" where
  "deleted i s s' =
     (shrinks s s'
      \<and> i \<notin> folderIds s'
      \<and> (\<forall>f \<in> set (st_folders s'). f_parentFolder f \<noteq> Some i)
      \<and> (\<forall>m \<in> set (st_materials s'). m_folder m \<noteq> Some i)
      \<and> (\<exists>evs. st_trace s' = st_trace s @ evs @ [FolderDeleted i]))"

section \<open>Counters under overlapping requests\<close>

text \<open>
  The handlers that count are asynchronous. Each one first awaits the read of the
  document (\<^verbatim>\<open>findById\<close>), then checks access on the copy it holds (and, for a
  download, the file), adds one to the counter of that copy and awaits \<^verbatim>\<open>save()\<close>,
  which writes the changed field of the copy back. Other requests run while a request
  awaits. A request is therefore two steps on the shared collection, the read and the
  write, and a schedule says in which order the steps of the requests are taken.
\<close>

datatype counter = Views | Downloads

record request =
  rq_user :: user
  rq_id :: oid
  rq_counter :: counter

datatype phase = Pending | Loaded material | Done | Failed error

definition counterValue :: "counter \<Rightarrow> material \<Rightarrow> nat" where
  "counterValue c m = (case c of Views \<Rightarrow> m_viewCount m | Downloads \<Rightarrow> m_downloadCount m)"

definition withCounter :: "counter \<Rightarrow> nat \<Rightarrow> material \<Rightarrow> material" where
  "withCounter c v m =
     (case c of Views \<Rightarrow> m\<lparr>m_viewCount := v\<rparr> | Downloads \<Rightarrow> m\<lparr>m_downloadCount := v\<rparr>)"

fun setCounter :: "counter \<Rightarrow> oid \<Rightarrow> nat \<Rightarrow> material list \<Rightarrow> material list" where
  "setCounter c i v [] = []"
| "setCounter c i v (m # ms) =
     (if m_id m = i then withCounter c v m # ms else m # setCounter c i v ms)"

text \<open>
  The write: the counter of the copy, plus one, is stored in the document of that
  identifier; saving a document that is no longer there fails.
\<close>

definition saveCounter :: "counter \<Rightarrow> material \<Rightarrow> material list \<Rightarrow> material list \<times> phase" where
  "saveCounter c m ms =
     (if findById ms (m_id m) = None then (ms, Failed ServerError)
      else (setCounter c (m_id m) (counterValue c m + 1) ms, Done))"

definition requestStep :: "string list \<Rightarrow> request \<Rightarrow> material list \<Rightarrow> phase \<Rightarrow> material list \<times> phase" where
  "requestStep files rq ms ph =
     (case ph of
        Pending \<Rightarrow>
          (case findById ms (rq_id rq) of
             None \<Rightarrow> (ms, Failed NotFound)
           | Some m \<Rightarrow> (ms, Loaded m))
      | Loaded m \<Rightarrow>
          (case accessCheck (rq_user rq) m of
             Some e \<Rightarrow> (ms, Failed e)
           | None \<Rightarrow>
               (case rq_counter rq of
                  Views \<Rightarrow> saveCounter Views m ms
                | Downloads \<Rightarrow>
                    (if \<not> truthy (m_filePath m) then (ms, Failed NoFile)
                     else if orEmpty (m_filePath m) \<notin> set files then (ms, Failed FileMissing)
                     else saveCounter Downloads m ms)))
      | Done \<Rightarrow> (ms, Done)
      | Failed e \<Rightarrow> (ms, Failed e))"

fun runSchedule ::
  "string list \<Rightarrow> request list \<Rightarrow> nat list \<Rightarrow> material list \<Rightarrow> phase list
     \<Rightarrow> material list \<times> phase list" where
  "runSchedule files rqs [] ms phs = (ms, phs)"
| "runSchedule files rqs (k # ks) ms phs =
     (if k < length rqs \<and> k < length phs
      then (case requestStep files (rqs ! k) ms (phs ! k) of
              (ms', ph') \<Rightarrow> runSchedule files rqs ks ms' (phs[k := ph']))
      else runSchedule files rqs ks ms phs)"

definition counterOf :: "counter \<Rightarrow> material list \<Rightarrow> oid \<Rightarrow> nat option" where
  "counterOf c ms i = map_option (counterValue c) (findById ms i)"

section \<open>Attendance rate\<close>

text \<open>
  \<^verbatim>\<open>GET /:id/progress\<close> of the students router counts the sessions that list the
  student as attendee and the past sessions the student is eligible for, and computes
  \<^verbatim>\<open>Math.round(total > 0 ? (attended / total) * 100 : 0)\<close>. The division and the
  multiplication are those of double-precision numbers; they are parameters \<open>fdiv\<close>
  and \<open>fmul\<close> here. \<^verbatim>\<open>Math.round\<close> gives the nearest integer, a tie going up.
\<close>

definition Math_round :: "real \<Rightarrow> int" where
  "Math_round x = \<lfloor>x + 1 / 2\<rfloor>"

definition sessionEligible :: "user \<Rightarrow> zoomSession \<Rightarrow> bool" where
  "sessionEligible u z =
     (z_grade z = u_grade u \<or> z_program z = u_program u \<or> z_program z = ''Both'')"

definition sessionsAttended :: "zoomSession list \<Rightarrow> user \<Rightarrow> zoomSession list" where
  "sessionsAttended zs u = filter (\<lambda>z. list_ex (\<lambda>a. a_student a = u_id u) (z_attendees z)) zs"

definition totalSessions :: "zoomSession list \<Rightarrow> user \<Rightarrow> nat \<Rightarrow> nat" where
  "totalSessions zs u now =
     length (filter (\<lambda>z. sessionEligible u z \<and> z_scheduledTime z \<le> now) zs)"

definition attendanceRate ::
  "(real \<Rightarrow> real \<Rightarrow> real) \<Rightarrow> (real \<Rightarrow> real \<Rightarrow> real) \<Rightarrow> zoomSession list \<Rightarrow> user \<Rightarrow> nat \<Rightarrow> int" where
  "attendanceRate fdiv fmul zs u now =
     Math_round
       (if totalSessions zs u now > 0
        then fmul (fdiv (real (length (sessionsAttended zs u))) (real (totalSessions zs u now))) 100
        else 0)"

text \<open>
  What the standard for floating-point arithmetic guarantees of an operation in double
  precision when the exact result is zero or lies well inside the range of normal
  numbers: the computed result is the exact one up to a relative error of
  \<open>1 / 2 ^ 53\<close>.
\<close>

definition exactDiv :: "real \<Rightarrow> real \<Rightarrow> real" where
  "exactDiv x y = x / y"

definition exactMul :: "real \<Rightarrow> real \<Rightarrow> real" where
  "exactMul x y = x * y"

definition correctlyRounded :: "(real \<Rightarrow> real \<Rightarrow> real) \<Rightarrow> (real \<Rightarrow> real \<Rightarrow> real) \<Rightarrow> bool" where
  "correctlyRounded exact fl =
     (\<forall>x y. exact x y = 0 \<or> (1 / 2 ^ 64 \<le> \<bar>exact x y\<bar> \<and> \<bar>exact x y\<bar> \<le> 2 ^ 64)
        \<longrightarrow> \<bar>fl x y - exact x y\<bar> \<le> \<bar>exact x y\<bar> / 2 ^ 53)"

section \<open>Example data\<close>

text \<open>
  The scenario of the specification: a teacher (user 3) owns the material
  "Enzyme Kinetics Lab" of grade 12, program Both, in folder 5; it is not public.
  Student 7 is in grade 12, program EST; teacher 4 is another teacher.
\<close>

definition exStudent :: user where
  "exStudent = \<lparr>u_id = 7, u_role = ''student'', u_grade = ''12'', u_program = ''EST''\<rparr>"

definition exTeacher :: user where
  "exTeacher = \<lparr>u_id = 3, u_role = ''teacher'', u_grade = [], u_program = []\<rparr>"

definition exOtherTeacher :: user where
  "exOtherTeacher = \<lparr>u_id = 4, u_role = ''teacher'', u_grade = [], u_program = []\<rparr>"

definition exMaterial :: material where
  "exMaterial =
     \<lparr>m_id = 1, m_title = ascii ''Enzyme Kinetics Lab'', m_description = None, m_type = ''pdf'',
      m_fileName = Some ''lab.pdf'', m_filePath = Some ''uploads/3/lab.pdf'',
      m_fileSize = Some 1024, m_url = None, m_folder = Some 5, m_owner = 3,
      m_course = ''Biochemistry'', m_grade = ''12'', m_program = ''Both'', m_tags = [],
      m_isPublic = False, m_downloadCount = 0, m_viewCount = 0,
      m_dueDate = None, m_priority = ''medium'', m_createdAt = 0\<rparr>"


definition exSession :: zoomSession where
  "exSession =
     \<lparr>z_id = 9, z_title = ascii ''Enzymes live'', z_description = None,
      z_course = ''Biochemistry'',
      z_grade = ''12'', z_program = ''Both'', z_teacher = 3, z_zoomMeetingId = ''demo_1'',
      z_scheduledTime = 100, z_duration = 60, z_status = ''cancelled'', z_attendees = [],
      z_materials = []\<rparr>"

definition statusOnly :: "string \<Rightarrow> sessionUpdate" where
  "statusOnly st =
     \<lparr>su_title = None, su_description = None, su_scheduledTime = None, su_duration = None,
      su_status = Some st\<rparr>"

definition exSqlDb :: sqlDb where
  "exSqlDb = \<lparr>db_users = [3], db_courses = [1], db_folders = [], db_materials = []\<rparr>"

definition exLinkRequest :: sqlMaterialRequest where
  "exLinkRequest =
     \<lparr>s_title = Some (ascii ''Krebs cycle video''), s_description = None, s_course_id = Some 1,
      s_folder_id = None, s_type = Some ''link'', s_url = None, s_grade = Some ''12'',
      s_program = Some ''Both'', s_tags = None, s_is_public = None, s_priority = None,
      s_file = None\<rparr>"

text \<open>
  A store for deletion: folder 1 of the teacher with subfolder 2 and, below it,
  subfolder 3; folder 4 apart. Material 1 lies in folder 3, material 2 in folder 4. No
  file exists on disk, so every attempt to remove one fails.
\<close>

definition exFolder :: "oid \<Rightarrow> string \<Rightarrow> oid option \<Rightarrow> string \<Rightarrow> folder" where
  "exFolder i name parent path =
     \<lparr>f_id = i, f_name = ascii name, f_description = None, f_parentFolder = parent,
      f_owner = 3,
      f_course = ''Biochemistry'', f_grade = ''12'', f_program = ''Both'',
      f_color = ''#2c5aa0'', f_icon = ''folder'', f_isPublic = False, f_sharedWith = [],
      f_tags = [], f_path = ascii path, f_createdAt = 0\<rparr>"

definition exFolders :: "folder list" where
  "exFolders =
     [exFolder 1 ''Lecture Materials'' None ''Lecture Materials'',
      exFolder 2 ''Week 1'' (Some 1) ''Lecture Materials/Week 1'',
      exFolder 3 ''Labs'' (Some 2) ''Lecture Materials/Week 1/Labs'',
      exFolder 4 ''Exams'' None ''Exams'']"

definition exStore :: store where
  "exStore =
     \<lparr>st_folders = exFolders,
      st_materials = [exMaterial\<lparr>m_folder := Some 3\<rparr>, exMaterial\<lparr>m_id := 2, m_folder := Some 4\<rparr>],
      st_files = [], st_protected = [], st_trace = []\<rparr>"

text \<open>
  Two requests to create a folder, one at the root and one below folder 1, and a
  request to rename a folder to "Lectures", sent with a no-break space at its end.
\<close>

definition exNewFolder :: "oid option \<Rightarrow> string \<Rightarrow> folderRequest" where
  "exNewFolder parent name =
     \<lparr>fr_name = Some (ascii name), fr_description = None, fr_parentFolder = parent,
      fr_course = Some ''Biochemistry'', fr_grade = Some ''12'', fr_program = Some ''Both'',
      fr_color = None, fr_icon = None, fr_isPublic = None, fr_tags = None\<rparr>"

definition exRename :: folderUpdate where
  "exRename =
     \<lparr>fu_name = Some (ascii ''Lectures'' @ [0xA0]), fu_description = None, fu_color = None,
      fu_icon = None, fu_isPublic = None, fu_tags = None\<rparr>"

definition exDownload :: request where
  "exDownload = \<lparr>rq_user = exStudent, rq_id = 1, rq_counter = Downloads\<rparr>"

definition exView :: request where
  "exView = \<lparr>rq_user = exStudent, rq_id = 1, rq_counter = Views\<rparr>"

definition exSessions :: "zoomSession list" where
  "exSessions =
     [exSession\<lparr>z_status := ''ended'', z_attendees := [\<lparr>a_student = 7, a_joinedAt = 100\<rparr>]\<rparr>,
      exSession\<lparr>z_id := 10, z_status := ''ended''\<rparr>]"

section \<open>Properties of the material catalog\<close>





lemma findById_mem: "findById ms i = Some m \<Longrightarrow> m \<in> set ms \<and> m_id m = i"
  by (induction ms) (auto split: if_splits)

lemma getMaterial_ok_iff:
  "findById ms i = Some m \<Longrightarrow> (\<exists>r. getMaterial ms u i = Inr r) \<longleftrightarrow> readAccess u m"
  by (auto simp: getMaterial_def readAccess_def Let_def split: option.splits)






lemma downloadMaterial_denied_iff:
  "findById ms i = Some m \<Longrightarrow>
     downloadMaterial ms fs u i = Inl AccessDenied \<longleftrightarrow> accessCheck u m = Some AccessDenied"
  by (auto simp: downloadMaterial_def Let_def split: option.splits)

lemma public_accessCheck:
  "m_isPublic m \<Longrightarrow>
     accessCheck u m
       = (if u_role u = ''student'' \<or> m_owner m = u_id u then None else Some AccessDenied)"
  by (simp add: accessCheck_def)

text \<open>
  Claim C5, as amended. For a stored material with the public flag set, a read is
  allowed exactly for students and for the owner: \<^verbatim>\<open>get\<close> succeeds exactly for
  them, and \<^verbatim>\<open>download\<close> passes its access check exactly for them. A teacher or
  administrator who is not the owner is denied whatever the flag says.
\<close>

theorem public_read_iff_student_or_owner:
  assumes "findById ms i = Some m" and "m_isPublic m"
  shows "((\<exists>r. getMaterial ms u i = Inr r) \<longleftrightarrow> (u_role u = ''student'' \<or> m_owner m = u_id u))
       \<and> (downloadMaterial ms fs u i \<noteq> Inl AccessDenied
            \<longleftrightarrow> (u_role u = ''student'' \<or> m_owner m = u_id u))"
proof -
  have "readAccess u m \<longleftrightarrow> (u_role u = ''student'' \<or> m_owner m = u_id u)"
    using assms(2) by (simp add: readAccess_def public_accessCheck)
  then show ?thesis
    using getMaterial_ok_iff[OF assms(1), of u] downloadMaterial_denied_iff[OF assms(1), of fs u]
      public_accessCheck[OF assms(2), of u]
    by simp
qed

text \<open>
  The hypotheses hold for the example material made public, which the example student
  may then read.
\<close>

theorem public_read_iff_student_or_owner_witness:
  "findById [exMaterial\<lparr>m_isPublic := True\<rparr>] 1 = Some (exMaterial\<lparr>m_isPublic := True\<rparr>)
   \<and> m_isPublic (exMaterial\<lparr>m_isPublic := True\<rparr>)
   \<and> (\<exists>r. getMaterial [exMaterial\<lparr>m_isPublic := True\<rparr>] exStudent 1 = Inr r)
   \<and> downloadMaterial [exMaterial\<lparr>m_isPublic := True\<rparr>] [] exStudent 1 \<noteq> Inl AccessDenied"
proof -
  have h1: "findById [exMaterial\<lparr>m_isPublic := True\<rparr>] 1 = Some (exMaterial\<lparr>m_isPublic := True\<rparr>)"
    by (simp add: exMaterial_def)
  have h2: "m_isPublic (exMaterial\<lparr>m_isPublic := True\<rparr>)" by simp
  have h3: "u_role exStudent = ''student''" by (simp add: exStudent_def)
  show ?thesis
    using public_read_iff_student_or_owner[OF h1 h2, of exStudent "[]"] h1 h3 by simp
qed

text \<open>
  The claim as first stated fails: the example material made public is refused to a
  teacher who does not own it, by \<^verbatim>\<open>get\<close> and by \<^verbatim>\<open>download\<close>.
\<close>

theorem public_material_denied_to_other_teacher_counterexample:
  "m_isPublic (exMaterial\<lparr>m_isPublic := True\<rparr>)
   \<and> getMaterial [exMaterial\<lparr>m_isPublic := True\<rparr>] exOtherTeacher 1 = Inl AccessDenied
   \<and> downloadMaterial [exMaterial\<lparr>m_isPublic := True\<rparr>] [''uploads/3/lab.pdf''] exOtherTeacher 1
       = Inl AccessDenied"
  by (simp add: getMaterial_def downloadMaterial_def accessCheck_def exOtherTeacher_def exMaterial_def)

section \<open>Properties of session updates\<close>

lemma statusOnly_apply: "applySessionUpdate z (statusOnly st) = (if st \<noteq> [] then z\<lparr>z_status := st\<rparr> else z)"
  by (simp add: applySessionUpdate_def statusOnly_def truthy_def orEmpty_def)

lemma applySessionUpdate_id: "z_id (applySessionUpdate z r) = z_id z"
  by (simp add: applySessionUpdate_def Let_def split: option.splits)

lemma applySessionUpdate_status:
  "su_status r = Some st \<Longrightarrow> st \<noteq> [] \<Longrightarrow> z_status (applySessionUpdate z r) = st"
  by (simp add: applySessionUpdate_def Let_def truthy_def orEmpty_def split: option.splits)

lemma findSession_id: "findSession zs i t = Some z \<Longrightarrow> z_id z = i \<and> z \<in> set zs"
  by (induction zs) (auto split: if_splits)

lemma sessionById_save:
  "i \<in> z_id ` set zs \<Longrightarrow> z_id d = i \<Longrightarrow> sessionById (saveSession d zs) i = Some d"
  by (induction zs) auto

text \<open>
  Claim C9, as amended. On a stored session of the caller and for each of the four
  statuses: an update that carries only that status succeeds and stores the session
  with it, whatever the current status is; and every update that carries that status
  and succeeds leaves the session stored with it. Nothing orders the statuses.
\<close>

theorem update_sets_any_status:
  assumes "findSession zs i (u_id u) = Some z" and "z_title z \<noteq> []" and "st \<in> set statusEnum"
  shows "updateSession zs u i (statusOnly st)
           = Inr (z\<lparr>z_status := st\<rparr>, saveSession (z\<lparr>z_status := st\<rparr>) zs)
       \<and> sessionById (saveSession (z\<lparr>z_status := st\<rparr>) zs) i = Some (z\<lparr>z_status := st\<rparr>)
       \<and> (\<forall>r z' zs'. su_status r = Some st \<longrightarrow> updateSession zs u i r = Inr (z', zs')
             \<longrightarrow> z_status z' = st \<and> sessionById zs' i = Some z')"
proof -
  have ne: "st \<noteq> []" using assms(3) by (auto simp: statusEnum_def)
  have zi: "z_id z = i" and mem: "i \<in> z_id ` set zs"
    using findSession_id[OF assms(1)] by auto
  have one: "updateSession zs u i (statusOnly st)
           = Inr (z\<lparr>z_status := st\<rparr>, saveSession (z\<lparr>z_status := st\<rparr>) zs)"
    using ne assms by (simp add: updateSession_def statusOnly_apply Let_def)
  have two: "sessionById (saveSession (z\<lparr>z_status := st\<rparr>) zs) i = Some (z\<lparr>z_status := st\<rparr>)"
    using mem zi by (simp add: sessionById_save)
  have three: "z_status z' = st \<and> sessionById zs' i = Some z'"
    if r: "su_status r = Some st" and ok: "updateSession zs u i r = Inr (z', zs')" for r z' zs'
  proof -
    from ok assms(1) have z': "z' = applySessionUpdate z r" and zs': "zs' = saveSession z' zs"
      by (auto simp: updateSession_def Let_def split: if_splits)
    have "z_id z' = i" using z' zi by (simp add: applySessionUpdate_id)
    then have "sessionById zs' i = Some z'" using zs' mem by (simp add: sessionById_save)
    moreover have "z_status z' = st" using z' r ne by (simp add: applySessionUpdate_status)
    ultimately show ?thesis by simp
  qed
  show ?thesis using one two three by blast
qed

text \<open>
  The hypotheses hold for the example session once ended. An update that carries only
  the status started moves it back to started; an update that carries that status and a
  new duration succeeds as well, and the session is then stored as started, with the
  new duration.
\<close>

theorem update_sets_any_status_witness:
  "findSession [exSession\<lparr>z_status := ''ended''\<rparr>] 9 (u_id exTeacher) = Some (exSession\<lparr>z_status := ''ended''\<rparr>)
   \<and> z_title (exSession\<lparr>z_status := ''ended''\<rparr>) \<noteq> [] \<and> ''started'' \<in> set statusEnum
   \<and> updateSession [exSession\<lparr>z_status := ''ended''\<rparr>] exTeacher 9 (statusOnly ''started'')
       = Inr (exSession\<lparr>z_status := ''started''\<rparr>, [exSession\<lparr>z_status := ''started''\<rparr>])
   \<and> su_status (statusOnly ''started''\<lparr>su_duration := Some 90\<rparr>) = Some ''started''
   \<and> updateSession [exSession\<lparr>z_status := ''ended''\<rparr>] exTeacher 9
         (statusOnly ''started''\<lparr>su_duration := Some 90\<rparr>)
       = Inr (exSession\<lparr>z_duration := 90, z_status := ''started''\<rparr>,
              [exSession\<lparr>z_duration := 90, z_status := ''started''\<rparr>])
   \<and> z_status (exSession\<lparr>z_duration := 90, z_status := ''started''\<rparr>) = ''started''
   \<and> sessionById [exSession\<lparr>z_duration := 90, z_status := ''started''\<rparr>] 9
       = Some (exSession\<lparr>z_duration := 90, z_status := ''started''\<rparr>)"
proof -
  have h1: "findSession [exSession\<lparr>z_status := ''ended''\<rparr>] 9 (u_id exTeacher) = Some (exSession\<lparr>z_status := ''ended''\<rparr>)"
    by (simp add: exSession_def exTeacher_def)
  have h2: "z_title (exSession\<lparr>z_status := ''ended''\<rparr>) \<noteq> []"
    by (simp add: exSession_def ascii_def)
  have h3: "''started'' \<in> set statusEnum" by (simp add: statusEnum_def)
  have h4: "su_status (statusOnly ''started''\<lparr>su_duration := Some 90\<rparr>) = Some ''started''"
    by (simp add: statusOnly_def)
  have h5: "updateSession [exSession\<lparr>z_status := ''ended''\<rparr>] exTeacher 9
         (statusOnly ''started''\<lparr>su_duration := Some 90\<rparr>)
       = Inr (exSession\<lparr>z_duration := 90, z_status := ''started''\<rparr>,
              [exSession\<lparr>z_duration := 90, z_status := ''started''\<rparr>])"
    by (simp add: updateSession_def applySessionUpdate_def statusOnly_def truthy_def orEmpty_def
        statusEnum_def Let_def exSession_def exTeacher_def ascii_def)
  note main = update_sets_any_status[OF h1 h2 h3]
  from main[THEN conjunct1]
  have a: "updateSession [exSession\<lparr>z_status := ''ended''\<rparr>] exTeacher 9 (statusOnly ''started'')
       = Inr (exSession\<lparr>z_status := ''started''\<rparr>, [exSession\<lparr>z_status := ''started''\<rparr>])"
    by (simp add: exSession_def)
  from main[THEN conjunct2, THEN conjunct2] h4 h5
  have b: "z_status (exSession\<lparr>z_duration := 90, z_status := ''started''\<rparr>) = ''started''
     \<and> sessionById [exSession\<lparr>z_duration := 90, z_status := ''started''\<rparr>] 9
         = Some (exSession\<lparr>z_duration := 90, z_status := ''started''\<rparr>)"
    by blast
  from h1 h2 h3 h4 h5 a b show ?thesis by blast
qed

text \<open>
  The claim as first stated fails: the cancelled example session is updated to
  scheduled, which is not a forward transition.
\<close>

theorem cancelled_session_rescheduled_counterexample:
  "z_status exSession = ''cancelled''
   \<and> updateSession [exSession] exTeacher 9 (statusOnly ''scheduled'')
       = Inr (exSession\<lparr>z_status := ''scheduled''\<rparr>, [exSession\<lparr>z_status := ''scheduled''\<rparr>])
   \<and> \<not> forwardTransition (z_status exSession) ''scheduled''"
  by (simp add: updateSession_def applySessionUpdate_def statusOnly_def truthy_def orEmpty_def
      statusEnum_def Let_def forwardTransition_def exSession_def exTeacher_def ascii_def)

section \<open>Properties of material creation\<close>

text \<open>
  Claim C7 at its failing input. On the relational server a teacher creates a material
  of type \<^verbatim>\<open>link\<close> without a URL: the request is accepted and the row is stored with
  neither a URL nor a file, where the claim asks for a validation error. The document
  backend refuses the same request (\<open>createMaterial_link_needs_url\<close>).
\<close>

theorem sql_link_without_url_is_stored:
  "s_type exLinkRequest = Some ''link'' \<and> s_url exLinkRequest = None
   \<and> (\<exists>row db'. sqlCreateMaterial exSqlDb exTeacher exLinkRequest = Inr (row, db')
         \<and> row_type row = ''link'' \<and> row_url row = None \<and> row_file_path row = None
         \<and> db_materials db' = [row])"
  by (simp add: sqlCreateMaterial_def newRow_def insertRow_def requireRole_def rowConstraints_def nullOrIn_def typeEnum_def
      gradeEnum_def programEnum_def priorityEnum_def truthy_def orEmpty_def trim_def isSpace_def
      ascii_def
      nextRowId_def exSqlDb_def exTeacher_def exLinkRequest_def)

text \<open>
  The document backend on the same three cases: a link without a URL and a file type
  without a file are refused as validation errors (unless a folder that is not the
  caller's is refused first), and a valid link with a URL in a folder of the caller is
  stored without any file reference.
\<close>

lemma createMaterial_link_needs_url:
  assumes "r_type r = Some ''link''" and "\<not> truthy (r_url r)"
    and "r_folder r = None \<or> (\<exists>f folder. r_folder r = Some f \<and> findFolderOwned fs f (u_id u) = Some folder)"
  shows "createMaterial fs ms u nid now r = Inl ValidationError"
  using assms by (auto simp: createMaterial_def Let_def)

lemma createMaterial_file_needed:
  assumes "r_type r \<noteq> Some ''link''" and "r_file r = None"
    and "r_folder r = None \<or> (\<exists>f folder. r_folder r = Some f \<and> findFolderOwned fs f (u_id u) = Some folder)"
  shows "createMaterial fs ms u nid now r = Inl ValidationError"
  using assms by (auto simp: createMaterial_def Let_def)

lemma createMaterial_link_with_url:
  assumes "validMaterialBody r" and "r_type r = Some ''link''" and "truthy (r_url r)"
    and "r_folder r = Some f" and "findFolderOwned fs f (u_id u) = Some folder"
    and "\<not> truthy (r_priority r) \<or> orEmpty (r_priority r) \<in> set priorityEnum"
  shows "\<exists>d. createMaterial fs ms u nid now r = Inr (d, ms @ [d])
           \<and> m_url d = r_url r \<and> m_fileName d = None \<and> m_filePath d = None \<and> m_fileSize d = None"
  using assms
  by (auto simp: createMaterial_def insertMaterial_def materialSchemaValid_def validMaterialBody_def
      Let_def priorityEnum_def orEmpty_def)

section \<open>Properties of sharing\<close>

lemma setPermission_users: "map sh_user (setPermission shs s p) = map sh_user shs"
  by (induction shs) auto

lemma setPermission_other:
  "t \<noteq> s \<Longrightarrow> filter (\<lambda>sh. sh_user sh = t) (setPermission shs s p) = filter (\<lambda>sh. sh_user sh = t) shs"
  by (induction shs) auto

lemma filter_absent: "s \<notin> sh_user ` set shs \<Longrightarrow> filter (\<lambda>sh. sh_user sh = s) shs = []"
  by (induction shs) auto

lemma setPermission_same:
  "distinct (map sh_user shs) \<Longrightarrow> s \<in> sh_user ` set shs \<Longrightarrow>
     filter (\<lambda>sh. sh_user sh = s) (setPermission shs s p) = [\<lparr>sh_user = s, sh_permission = p\<rparr>]"
proof (induction shs)
  case Nil
  then show ?case by simp
next
  case (Cons sh shs)
  show ?case
  proof (cases "sh_user sh = s")
    case True
    with Cons.prems have "s \<notin> sh_user ` set shs" by auto
    with True show ?thesis by (simp add: filter_absent)
  next
    case False
    with Cons show ?thesis by auto
  qed
qed

lemma upsertShare_users:
  "map sh_user (upsertShare shs s p) =
     (if s \<in> sh_user ` set shs then map sh_user shs else map sh_user shs @ [s])"
  by (auto simp: upsertShare_def setPermission_users list_ex_iff)

lemma upsertShare_distinct:
  "distinct (map sh_user shs) \<Longrightarrow> distinct (map sh_user (upsertShare shs s p))"
  by (simp add: upsertShare_users)

lemma upsertShare_same:
  "distinct (map sh_user shs) \<Longrightarrow>
     filter (\<lambda>sh. sh_user sh = s) (upsertShare shs s p) = [\<lparr>sh_user = s, sh_permission = p\<rparr>]"
  by (auto simp: upsertShare_def list_ex_iff setPermission_same filter_absent)

lemma upsertShare_other:
  "t \<noteq> s \<Longrightarrow> filter (\<lambda>sh. sh_user sh = t) (upsertShare shs s p) = filter (\<lambda>sh. sh_user sh = t) shs"
  by (simp add: upsertShare_def setPermission_other)

lemma shareLoop_on_list:
  "shareLoop (Some shs) sids p = Inr (Some (foldl (\<lambda>a s. upsertShare a s p) shs sids))"
  by (induction sids arbitrary: shs) simp_all

lemma shareLoop_on_undefined:
  "shareLoop None sids p = (if sids = [] then Inr None else Inl ServerError)"
  by (cases sids) simp_all

lemma upsertLoop_distinct:
  "distinct (map sh_user shs) \<Longrightarrow>
     distinct (map sh_user (foldl (\<lambda>a s. upsertShare a s p) shs sids))"
  by (induction sids arbitrary: shs) (auto simp: upsertShare_distinct)

lemma upsertLoop_other:
  "t \<notin> set sids \<Longrightarrow>
     filter (\<lambda>sh. sh_user sh = t) (foldl (\<lambda>a s. upsertShare a s p) shs sids)
       = filter (\<lambda>sh. sh_user sh = t) shs"
  by (induction sids arbitrary: shs) (auto simp: upsertShare_other)

lemma upsertLoop_keeps:
  "distinct (map sh_user shs) \<Longrightarrow>
   filter (\<lambda>sh. sh_user sh = s) shs = [\<lparr>sh_user = s, sh_permission = p\<rparr>] \<Longrightarrow>
   filter (\<lambda>sh. sh_user sh = s) (foldl (\<lambda>a s. upsertShare a s p) shs sids)
     = [\<lparr>sh_user = s, sh_permission = p\<rparr>]"
proof (induction sids arbitrary: shs)
  case Nil
  then show ?case by simp
next
  case (Cons t sids)
  have "filter (\<lambda>sh. sh_user sh = s) (upsertShare shs t p) = [\<lparr>sh_user = s, sh_permission = p\<rparr>]"
    using Cons.prems by (cases "t = s") (simp_all add: upsertShare_same upsertShare_other)
  then show ?case
    using Cons.IH[of "upsertShare shs t p"] Cons.prems(1) by (simp add: upsertShare_distinct)
qed

lemma upsertLoop_same:
  "distinct (map sh_user shs) \<Longrightarrow> s \<in> set sids \<Longrightarrow>
   filter (\<lambda>sh. sh_user sh = s) (foldl (\<lambda>a s. upsertShare a s p) shs sids)
     = [\<lparr>sh_user = s, sh_permission = p\<rparr>]"
proof (induction sids arbitrary: shs)
  case Nil
  then show ?case by simp
next
  case (Cons t sids)
  show ?case
  proof (cases "t = s")
    case True
    then show ?thesis
      using upsertLoop_keeps[of "upsertShare shs s p" s p sids] Cons.prems(1)
      by (simp add: upsertShare_distinct upsertShare_same)
  next
    case False
    then show ?thesis using Cons by (simp add: upsertShare_distinct)
  qed
qed

text \<open>
  On an array the loop of the share route does what the specification describes: it
  keeps one entry per user, gives every user of the request the requested permission and
  leaves the entries of the other users alone (the four lemmas above). The route never
  gets that far. The material schema declares no \<open>sharedWith\<close> path, so on every material
  document the property is undefined, and the first pass of the loop calls \<open>find\<close> on it:
  every request that passes validation and finds its material throws and is answered
  with status 500, and no request at all is answered with success.
\<close>

lemma shareMaterial_valid_request_throws:
  assumes "findOneOwned ms i (u_id u) = Some m"
    and "sids \<noteq> []" and "p \<in> {''read'', ''write''}"
  shows "shareMaterial ms u i sids p = Inl ServerError"
  using assms by (auto simp: shareMaterial_def m_sharedWith_def shareLoop_on_undefined)

lemma shareMaterial_never_succeeds: "shareMaterial ms u i sids p \<noteq> Inr x"
  by (auto simp: shareMaterial_def m_sharedWith_def shareLoop_on_undefined split: option.splits)

text \<open>
  Claim C8, at its failing input. The specification says that sharing a material with a
  student stores one share entry for the student and that sharing again updates the
  permission of that entry. The example material is stored and owned by the example
  teacher, who shares it with student 7: at permission read the route answers with a
  server error (status 500), and so it does at permission write; no entry is stored
  either time, since the \<open>sharedWith\<close> property of the material is undefined.
\<close>

theorem share_request_answers_server_error:
  "findOneOwned [exMaterial] 1 (u_id exTeacher) = Some exMaterial
   \<and> m_sharedWith exMaterial = None
   \<and> shareMaterial [exMaterial] exTeacher 1 [7] ''read'' = Inl ServerError
   \<and> shareMaterial [exMaterial] exTeacher 1 [7] ''write'' = Inl ServerError"
  by (simp add: shareMaterial_def m_sharedWith_def exMaterial_def exTeacher_def)
section \<open>Properties of recursive deletion\<close>

lemma removeById_filter:
  "distinct (map f_id fs) \<Longrightarrow> removeById i fs = filter (\<lambda>f. f_id f \<noteq> i) fs"
proof (induction fs)
  case Nil
  then show ?case by simp
next
  case (Cons f fs)
  show ?case
  proof (cases "f_id f = i")
    case True
    with Cons.prems have "\<forall>g \<in> set fs. f_id g \<noteq> i" by (metis distinct.simps(2) image_eqI list.simps(9) set_map)
    then have "filter (\<lambda>f. f_id f \<noteq> i) fs = fs" by (simp add: filter_id_conv)
    with True show ?thesis by simp
  next
    case False
    with Cons show ?thesis by simp
  qed
qed

lemma removeById_subset: "set (removeById i fs) \<subseteq> set fs"
  by (induction fs) auto

lemma unlink_records [simp]:
  "st_folders (unlink p s) = st_folders s" "st_materials (unlink p s) = st_materials s"
  by (simp_all add: unlink_def)

lemma unlink_trace:
  "\<exists>e. st_trace (unlink p s) = st_trace s @ [e] \<and> (\<forall>x. e \<noteq> FolderDeleted x)"
  by (simp add: unlink_def)

lemma unlinkFiles_records [simp]:
  "st_folders (unlinkFiles ms s) = st_folders s" "st_materials (unlinkFiles ms s) = st_materials s"
  by (induction ms arbitrary: s) simp_all

lemma unlinkFiles_trace:
  "\<exists>evs. st_trace (unlinkFiles ms s) = st_trace s @ evs \<and> (\<forall>x. FolderDeleted x \<notin> set evs)"
proof (induction ms arbitrary: s)
  case Nil
  then show ?case by simp
next
  case (Cons m ms)
  show ?case
  proof (cases "truthy (m_filePath m)")
    case True
    obtain e where e: "st_trace (unlink (orEmpty (m_filePath m)) s) = st_trace s @ [e]"
      "\<forall>x. e \<noteq> FolderDeleted x" using unlink_trace by blast
    obtain evs where evs: "st_trace (unlinkFiles ms (unlink (orEmpty (m_filePath m)) s))
        = st_trace (unlink (orEmpty (m_filePath m)) s) @ evs" "\<forall>x. FolderDeleted x \<notin> set evs"
      using Cons.IH by blast
    have "st_trace (unlinkFiles (m # ms) s) = st_trace s @ (e # evs)"
      using True e evs by simp
    moreover have "\<forall>x. FolderDeleted x \<notin> set (e # evs)" using e evs by auto
    ultimately show ?thesis by blast
  next
    case False
    then show ?thesis using Cons.IH[of s] by simp
  qed
qed

lemma eventOk_mono:
  "eventOk fs b e \<Longrightarrow> set b \<subseteq> set b' \<Longrightarrow> eventOk fs b' e"
  by (cases e) (auto simp: eventOk_def list_all_iff)

lemma childrenFirst_no_folder:
  "\<forall>x. FolderDeleted x \<notin> set evs \<Longrightarrow> childrenFirst fs b evs"
proof (induction evs arbitrary: b)
  case Nil
  then show ?case by simp
next
  case (Cons e evs)
  then show ?case by (cases e) (auto simp: eventOk_def)
qed

lemma childrenFirst_append:
  "childrenFirst fs b (xs @ ys) \<longleftrightarrow> childrenFirst fs b xs \<and> childrenFirst fs (b @ xs) ys"
  by (induction xs arbitrary: b) auto

text \<open>Events checked against the folders of a later store remain in order against an
  earlier store when the folders removed in between were deleted by earlier events.\<close>

lemma childrenFirst_earlier:
  assumes "childrenFirst fs1 b evs"
    and "\<forall>f \<in> set fs. f \<notin> set fs1 \<longrightarrow> FolderDeleted (f_id f) \<in> set pre"
  shows "childrenFirst fs (pre @ b) evs"
  using assms(1)
proof (induction evs arbitrary: b)
  case Nil
  then show ?case by simp
next
  case (Cons e evs)
  have ok: "eventOk fs (pre @ b) e"
  proof (cases e)
    case (FolderDeleted x)
    with Cons.prems have m: "MaterialsDeleted x \<in> set b"
      and c: "\<forall>f \<in> set fs1. f_parentFolder f = Some x \<longrightarrow> FolderDeleted (f_id f) \<in> set b"
      by (auto simp: eventOk_def list_all_iff)
    have "\<forall>f \<in> set fs. f_parentFolder f = Some x \<longrightarrow> FolderDeleted (f_id f) \<in> set (pre @ b)"
      using c assms(2) by auto
    with m FolderDeleted show ?thesis by (simp add: eventOk_def list_all_iff)
  qed (simp_all add: eventOk_def)
  have "childrenFirst fs (pre @ (b @ [e])) evs" using Cons by simp
  with ok show ?case by simp
qed

lemma shrinks_refl: "uniqueIds (st_folders s) \<Longrightarrow> shrinks s s"
  by (simp add: shrinks_def)

lemma shrinks_ids: "shrinks s s' \<Longrightarrow> folderIds s' \<subseteq> folderIds s"
  by (auto simp: shrinks_def folderIds_def)

lemma shrinks_trans:
  assumes "shrinks s s1" and "shrinks s1 s2"
  shows "shrinks s s2"
proof -
  obtain e1 where e1: "st_trace s1 = st_trace s @ e1"
    "\<forall>f \<in> set (st_folders s). f \<notin> set (st_folders s1) \<longrightarrow> FolderDeleted (f_id f) \<in> set e1"
    "childrenFirst (st_folders s) [] e1"
    using assms(1) by (auto simp: shrinks_def)
  obtain e2 where e2: "st_trace s2 = st_trace s1 @ e2"
    "\<forall>f \<in> set (st_folders s1). f \<notin> set (st_folders s2) \<longrightarrow> FolderDeleted (f_id f) \<in> set e2"
    "childrenFirst (st_folders s1) [] e2"
    using assms(2) by (auto simp: shrinks_def)
  have t: "st_trace s2 = st_trace s @ (e1 @ e2)" using e1 e2 by simp
  have g: "\<forall>f \<in> set (st_folders s). f \<notin> set (st_folders s2) \<longrightarrow> FolderDeleted (f_id f) \<in> set (e1 @ e2)"
    using e1(2) e2(2) by auto
  have "childrenFirst (st_folders s) (e1 @ []) e2"
    using childrenFirst_earlier[OF e2(3) e1(2)] .
  then have c: "childrenFirst (st_folders s) [] (e1 @ e2)"
    using e1(3) by (simp add: childrenFirst_append)
  have sub: "set (st_folders s2) \<subseteq> set (st_folders s)" "set (st_materials s2) \<subseteq> set (st_materials s)"
    using assms by (auto simp: shrinks_def)
  have u: "uniqueIds (st_folders s2)" using assms(2) by (simp add: shrinks_def)
  have df: "\<forall>f \<in> set (st_folders s2). \<forall>p. f_parentFolder f = Some p \<longrightarrow>
            p \<in> folderIds s \<longrightarrow> p \<in> folderIds s2"
    using assms unfolding shrinks_def by (meson subsetD)
  have dm: "\<forall>m \<in> set (st_materials s2). \<forall>g. m_folder m = Some g \<longrightarrow>
            g \<in> folderIds s \<longrightarrow> g \<in> folderIds s2"
    using assms unfolding shrinks_def by (meson subsetD)
  show ?thesis
    unfolding shrinks_def using sub u df dm t g c by blast
qed

lemma uniqueIds_filter: "uniqueIds fs \<Longrightarrow> uniqueIds (filter P fs)"
  by (simp add: uniqueIds_def distinct_map_filter)

text \<open>The last three steps of a call, on a store where the folder has no subfolder left.\<close>

lemma delete_own_records:
  assumes u: "uniqueIds (st_folders s1)"
    and nc: "\<forall>f \<in> set (st_folders s1). f_parentFolder f \<noteq> Some i"
  shows "deleted i s1 (findByIdAndDelete i (deleteMany i (unlinkFiles ms s1)))"
proof -
  let ?s' = "findByIdAndDelete i (deleteMany i (unlinkFiles ms s1))"
  obtain ev where ev: "st_trace (unlinkFiles ms s1) = st_trace s1 @ ev"
    "\<forall>x. FolderDeleted x \<notin> set ev"
    using unlinkFiles_trace by blast
  have fo: "st_folders ?s' = filter (\<lambda>f. f_id f \<noteq> i) (st_folders s1)"
    using u by (simp add: findByIdAndDelete_def deleteMany_def removeById_filter uniqueIds_def)
  have ma: "st_materials ?s' = filter (\<lambda>m. m_folder m \<noteq> Some i) (st_materials s1)"
    by (simp add: findByIdAndDelete_def deleteMany_def)
  have tr: "st_trace ?s' = st_trace s1 @ (ev @ [MaterialsDeleted i]) @ [FolderDeleted i]"
    using ev by (simp add: findByIdAndDelete_def deleteMany_def)
  have ids: "folderIds ?s' = folderIds s1 - {i}"
    using fo by (auto simp: folderIds_def)
  have cf: "childrenFirst (st_folders s1) [] ((ev @ [MaterialsDeleted i]) @ [FolderDeleted i])"
  proof -
    have "childrenFirst (st_folders s1) [] (ev @ [MaterialsDeleted i])"
      using ev(2) by (intro childrenFirst_no_folder) auto
    moreover have "eventOk (st_folders s1) (ev @ [MaterialsDeleted i]) (FolderDeleted i)"
      using nc by (simp add: eventOk_def list_all_iff)
    ultimately show ?thesis by (simp add: childrenFirst_append)
  qed
  have gone: "\<forall>f \<in> set (st_folders s1). f \<notin> set (st_folders ?s') \<longrightarrow>
      FolderDeleted (f_id f) \<in> set ((ev @ [MaterialsDeleted i]) @ [FolderDeleted i])"
    using fo by auto
  have sh: "shrinks s1 ?s'"
    unfolding shrinks_def
  proof (intro conjI)
    show "set (st_folders ?s') \<subseteq> set (st_folders s1)" using fo by auto
    show "set (st_materials ?s') \<subseteq> set (st_materials s1)" using ma by auto
    show "uniqueIds (st_folders ?s')" using fo u by (simp add: uniqueIds_filter)
    show "\<forall>f\<in>set (st_folders ?s'). \<forall>p. f_parentFolder f = Some p \<longrightarrow>
            p \<in> folderIds s1 \<longrightarrow> p \<in> folderIds ?s'"
      using nc fo ids by auto
    show "\<forall>m\<in>set (st_materials ?s'). \<forall>g. m_folder m = Some g \<longrightarrow>
            g \<in> folderIds s1 \<longrightarrow> g \<in> folderIds ?s'"
      using ma ids by auto
    show "\<exists>evs. st_trace ?s' = st_trace s1 @ evs
            \<and> (\<forall>f \<in> set (st_folders s1). f \<notin> set (st_folders ?s') \<longrightarrow>
                  FolderDeleted (f_id f) \<in> set evs)
            \<and> childrenFirst (st_folders s1) [] evs"
      using tr gone cf by blast
  qed
  show ?thesis
    unfolding deleted_def
  proof (intro conjI)
    show "shrinks s1 ?s'" by (rule sh)
    show "i \<notin> folderIds ?s'" using ids by simp
    show "\<forall>f\<in>set (st_folders ?s'). f_parentFolder f \<noteq> Some i" using nc fo by auto
    show "\<forall>m\<in>set (st_materials ?s'). m_folder m \<noteq> Some i" using ma by auto
    show "\<exists>evs. st_trace ?s' = st_trace s1 @ evs @ [FolderDeleted i]" using tr by blast
  qed
qed

lemma deleted_after_shrinks:
  assumes "shrinks s s1" and "deleted i s1 s'"
  shows "deleted i s s'"
proof -
  obtain e1 where e1: "st_trace s1 = st_trace s @ e1" using assms(1) by (auto simp: shrinks_def)
  obtain e2 where e2: "st_trace s' = st_trace s1 @ e2 @ [FolderDeleted i]"
    using assms(2) by (auto simp: deleted_def)
  have "st_trace s' = st_trace s @ (e1 @ e2) @ [FolderDeleted i]" using e1 e2 by simp
  then have "\<exists>evs. st_trace s' = st_trace s @ evs @ [FolderDeleted i]" by blast
  moreover have "shrinks s s'" using assms shrinks_trans by (auto simp: deleted_def)
  ultimately show ?thesis using assms(2) by (simp add: deleted_def)
qed

lemma deleteFolder_deleteEach_post:
  "(\<forall>s'. uniqueIds (st_folders s) \<longrightarrow> deleteFolder n i s = Some s' \<longrightarrow> deleted i s s')"
  "(\<forall>s'. uniqueIds (st_folders s) \<longrightarrow> deleteEach n cs s = Some s' \<longrightarrow>
        shrinks s s' \<and> (\<forall>c \<in> set cs. c \<notin> folderIds s'))"
proof (induction n i s and n cs s rule: deleteFolder_deleteEach.induct)
  case (1 folderId s)
  then show ?case by simp
next
  case (2 n folderId s)
  show ?case
  proof (intro allI impI)
    fix s'
    assume u: "uniqueIds (st_folders s)" and r: "deleteFolder (Suc n) folderId s = Some s'"
    let ?cs = "map f_id (filter (\<lambda>f. f_parentFolder f = Some folderId) (st_folders s))"
    from r obtain s1 where s1: "deleteEach n ?cs s = Some s1"
      and s': "s' = findByIdAndDelete folderId (deleteMany folderId
                 (unlinkFiles (filter (\<lambda>m. m_folder m = Some folderId) (st_materials s1)) s1))"
      by (auto simp: Let_def split: option.splits)
    from "2.IH"[OF refl] u s1 have sh: "shrinks s s1" and gone: "\<forall>c \<in> set ?cs. c \<notin> folderIds s1"
      by auto
    have u1: "uniqueIds (st_folders s1)" using sh by (simp add: shrinks_def)
    have nc: "\<forall>f \<in> set (st_folders s1). f_parentFolder f \<noteq> Some folderId"
    proof
      fix f assume f: "f \<in> set (st_folders s1)"
      show "f_parentFolder f \<noteq> Some folderId"
      proof
        assume p: "f_parentFolder f = Some folderId"
        have "f \<in> set (st_folders s)" using sh f by (auto simp: shrinks_def)
        with p have "f_id f \<in> set ?cs" by auto
        with gone have "f_id f \<notin> folderIds s1" by blast
        with f show False by (simp add: folderIds_def)
      qed
    qed
    from delete_own_records[OF u1 nc] s' have "deleted folderId s1 s'" by simp
    with sh show "deleted folderId s s'" by (rule deleted_after_shrinks)
  qed
next
  case (3 n s)
  then show ?case by (simp add: shrinks_refl)
next
  case (4 n c cs s)
  show ?case
  proof (intro allI impI)
    fix s'
    assume u: "uniqueIds (st_folders s)" and r: "deleteEach n (c # cs) s = Some s'"
    from r obtain s1 where s1: "deleteFolder n c s = Some s1" and rest: "deleteEach n cs s1 = Some s'"
      by (auto split: option.splits)
    from "4.IH"(1) u s1 have d: "deleted c s s1" by blast
    then have sh1: "shrinks s s1" and c: "c \<notin> folderIds s1" by (simp_all add: deleted_def)
    have u1: "uniqueIds (st_folders s1)" using sh1 by (simp add: shrinks_def)
    from "4.IH"(2)[OF s1] u1 rest have sh2: "shrinks s1 s'" and cs: "\<forall>c \<in> set cs. c \<notin> folderIds s'"
      by auto
    have "c \<notin> folderIds s'" using c shrinks_ids[OF sh2] by blast
    with cs shrinks_trans[OF sh1 sh2] show "shrinks s s' \<and> (\<forall>c \<in> set (c # cs). c \<notin> folderIds s')"
      by simp
  qed
qed

lemma subtree_root_or_record:
  "x \<in> subtree fs i \<Longrightarrow> x = i \<or> x \<in> f_id ` set fs"
  by (induction rule: subtree.induct) auto

lemma deleted_subtree_folders:
  assumes d: "deleted i s s'" and u: "uniqueIds (st_folders s)" and x: "x \<in> subtree (st_folders s) i"
  shows "x \<notin> folderIds s'"
  using x
proof (induction rule: subtree.induct)
  case root
  then show ?case using d by (simp add: deleted_def)
next
  case (child p f)
  show ?case
  proof
    assume "f_id f \<in> folderIds s'"
    then obtain f' where f': "f' \<in> set (st_folders s')" "f_id f' = f_id f"
      by (auto simp: folderIds_def)
    have "f' \<in> set (st_folders s)" using d f'(1) by (auto simp: deleted_def shrinks_def)
    with u child.hyps(2) f'(2) have "f' = f"
      by (auto simp: uniqueIds_def distinct_map inj_on_def)
    with f'(1) child.hyps(3) have fp: "f \<in> set (st_folders s')" "f_parentFolder f = Some p" by simp_all
    from subtree_root_or_record[OF child.hyps(1)] show False
    proof
      assume "p = i"
      with fp d show False by (auto simp: deleted_def)
    next
      assume "p \<in> f_id ` set (st_folders s)"
      then have "p \<in> folderIds s" by (simp add: folderIds_def)
      with fp d have "p \<in> folderIds s'" unfolding deleted_def shrinks_def by blast
      with child.IH show False by simp
    qed
  qed
qed

lemma deleted_subtree_materials:
  assumes d: "deleted i s s'" and u: "uniqueIds (st_folders s)"
    and m: "m \<in> set (st_materials s')" "m_folder m = Some g"
  shows "g \<notin> subtree (st_folders s) i"
proof
  assume g: "g \<in> subtree (st_folders s) i"
  from subtree_root_or_record[OF g] show False
  proof
    assume "g = i"
    with m d show False by (auto simp: deleted_def)
  next
    assume "g \<in> f_id ` set (st_folders s)"
    then have "g \<in> folderIds s" by (simp add: folderIds_def)
    with m d have "g \<in> folderIds s'" unfolding deleted_def shrinks_def by blast
    with deleted_subtree_folders[OF d u g] show False by simp
  qed
qed

lemma ranked_subset: "ranked rk fs \<Longrightarrow> set fs' \<subseteq> set fs \<Longrightarrow> ranked rk fs'"
  by (auto simp: ranked_def)

lemma deleteFolder_deleteEach_subset:
  "(\<forall>s'. deleteFolder n i s = Some s' \<longrightarrow> set (st_folders s') \<subseteq> set (st_folders s))"
  "(\<forall>s'. deleteEach n cs s = Some s' \<longrightarrow> set (st_folders s') \<subseteq> set (st_folders s))"
proof (induction n i s and n cs s rule: deleteFolder_deleteEach.induct)
  case (1 folderId s)
  then show ?case by simp
next
  case (2 n folderId s)
  show ?case
  proof (intro allI impI)
    fix s'
    assume r: "deleteFolder (Suc n) folderId s = Some s'"
    let ?cs = "map f_id (filter (\<lambda>f. f_parentFolder f = Some folderId) (st_folders s))"
    from r obtain s1 where s1: "deleteEach n ?cs s = Some s1"
      and s': "st_folders s' = removeById folderId (st_folders s1)"
      by (auto simp: Let_def findByIdAndDelete_def deleteMany_def split: option.splits)
    from "2.IH"[OF refl] s1 have "set (st_folders s1) \<subseteq> set (st_folders s)" by blast
    with s' removeById_subset[of folderId "st_folders s1"]
    show "set (st_folders s') \<subseteq> set (st_folders s)" by auto
  qed
next
  case (3 n s)
  then show ?case by simp
next
  case (4 n c cs s)
  show ?case
  proof (intro allI impI)
    fix s'
    assume r: "deleteEach n (c # cs) s = Some s'"
    from r obtain s1 where s1: "deleteFolder n c s = Some s1" and rest: "deleteEach n cs s1 = Some s'"
      by (auto split: option.splits)
    from "4.IH"(1) s1 have a: "set (st_folders s1) \<subseteq> set (st_folders s)" by blast
    from "4.IH"(2)[OF s1] rest have "set (st_folders s') \<subseteq> set (st_folders s1)" by blast
    with a show "set (st_folders s') \<subseteq> set (st_folders s)" by blast
  qed
qed

text \<open>Enough fuel: a folder of rank below the fuel is deleted, whatever the files.\<close>

lemma deleteFolder_deleteEach_returns:
  "(ranked rk (st_folders s) \<longrightarrow> rk i < n \<longrightarrow> deleteFolder n i s \<noteq> None)"
  "(ranked rk (st_folders s) \<longrightarrow> (\<forall>c \<in> set cs. rk c < n) \<longrightarrow> deleteEach n cs s \<noteq> None)"
proof (induction n i s and n cs s rule: deleteFolder_deleteEach.induct)
  case (1 folderId s)
  then show ?case by simp
next
  case (2 n folderId s)
  show ?case
  proof (intro impI)
    assume rk: "ranked rk (st_folders s)" and lt: "rk folderId < Suc n"
    let ?cs = "map f_id (filter (\<lambda>f. f_parentFolder f = Some folderId) (st_folders s))"
    have "\<forall>c \<in> set ?cs. rk c < n" using rk lt by (auto simp: ranked_def)
    with "2.IH"[OF refl] rk have "deleteEach n ?cs s \<noteq> None" by blast
    then show "deleteFolder (Suc n) folderId s \<noteq> None"
      by (auto simp: Let_def split: option.splits)
  qed
next
  case (3 n s)
  then show ?case by simp
next
  case (4 n c cs s)
  show ?case
  proof (intro impI)
    assume rk: "ranked rk (st_folders s)" and lt: "\<forall>c \<in> set (c # cs). rk c < n"
    from "4.IH"(1) rk lt obtain s1 where s1: "deleteFolder n c s = Some s1" by auto
    have "ranked rk (st_folders s1)"
      using deleteFolder_deleteEach_subset(1)[of n c s] s1 rk ranked_subset by blast
    with "4.IH"(2)[OF s1] lt have "deleteEach n cs s1 \<noteq> None" by simp
    with s1 show "deleteEach n (c # cs) s \<noteq> None" by simp
  qed
qed

lemma findFolderOwned_id: "findFolderOwned fs i ow = Some f \<Longrightarrow> f_id f = i \<and> f \<in> set fs"
  by (induction fs) (auto split: if_splits)

text \<open>
  Claim C2. In a store with unique identifiers and acyclic parent links, deleting a
  folder of the caller returns (with fuel above the folder's rank), whatever files
  exist and whatever removals the file system refuses. Afterwards no folder of the
  subtree remains and no material of a folder of the subtree remains. The trace of the
  run ends with the deletion of the folder itself, and every folder deleted in the run
  is deleted after its materials and after all its subfolders.
\<close>

theorem deleteFolder_empties_subtree:
  assumes "uniqueIds (st_folders s)" and "ranked rk (st_folders s)"
    and "findFolderOwned (st_folders s) i (u_id u) = Some folder"
  shows "\<exists>s'. deleteFolderRoute (Suc (rk i)) u i (s\<lparr>st_files := files, st_protected := prot\<rparr>)
                = Some (Inr s')
           \<and> (\<forall>f \<in> set (st_folders s'). f_id f \<notin> subtree (st_folders s) i)
           \<and> (\<forall>m \<in> set (st_materials s'). \<forall>g. m_folder m = Some g \<longrightarrow> g \<notin> subtree (st_folders s) i)
           \<and> (\<exists>evs. st_trace s' = st_trace s @ evs
                  \<and> last evs = FolderDeleted i
                  \<and> childrenFirst (st_folders s) [] evs)"
proof -
  let ?s = "s\<lparr>st_files := files, st_protected := prot\<rparr>"
  have fo: "st_folders ?s = st_folders s" and tr: "st_trace ?s = st_trace s" by simp_all
  have "deleteFolder (Suc (rk i)) i ?s \<noteq> None"
    using deleteFolder_deleteEach_returns(1)[of rk ?s i "Suc (rk i)"] assms(2) by simp
  then obtain s' where s': "deleteFolder (Suc (rk i)) i ?s = Some s'" by blast
  have u: "uniqueIds (st_folders ?s)" using assms(1) by simp
  have d: "deleted i ?s s'"
    using deleteFolder_deleteEach_post(1)[of ?s "Suc (rk i)" i] u s' by blast
  have r: "deleteFolderRoute (Suc (rk i)) u i ?s = Some (Inr s')"
    using assms(3) s' findFolderOwned_id[OF assms(3)] by (simp add: deleteFolderRoute_def)
  have f: "\<forall>f \<in> set (st_folders s'). f_id f \<notin> subtree (st_folders s) i"
    using deleted_subtree_folders[OF d u] by (auto simp: folderIds_def)
  have m: "\<forall>m \<in> set (st_materials s'). \<forall>g. m_folder m = Some g \<longrightarrow> g \<notin> subtree (st_folders s) i"
    using deleted_subtree_materials[OF d u] by auto
  obtain e1 where e1: "st_trace s' = st_trace s @ e1" "childrenFirst (st_folders s) [] e1"
    using d by (auto simp: deleted_def shrinks_def)
  obtain e2 where e2: "st_trace s' = st_trace s @ e2 @ [FolderDeleted i]"
    using d by (auto simp: deleted_def)
  from e1(1) e2 have "e1 = e2 @ [FolderDeleted i]" by simp
  then have "last e1 = FolderDeleted i" by simp
  with e1 r f m show ?thesis by blast
qed

text \<open>
  The example store meets the hypotheses of C2 (ranks 2, 1, 0 for folders 1, 2, 3).
  Deleting folder 1 leaves folder 4 and its material; the file of material 1 could not
  be removed, which the trace records before the deletions, deepest folder first.
\<close>

theorem deleteFolder_empties_subtree_witness:
  "uniqueIds (st_folders exStore) \<and> ranked (\<lambda>i. 3 - i) (st_folders exStore)
   \<and> findFolderOwned (st_folders exStore) 1 (u_id exTeacher)
        = Some (exFolder 1 ''Lecture Materials'' None ''Lecture Materials'')
   \<and> (\<exists>s'. deleteFolderRoute 3 exTeacher 1 exStore = Some (Inr s')
          \<and> map f_id (st_folders s') = [4] \<and> map m_id (st_materials s') = [2]
          \<and> st_trace s' = [UnlinkFailed ''uploads/3/lab.pdf'', MaterialsDeleted 3, FolderDeleted 3,
                            MaterialsDeleted 2, FolderDeleted 2, MaterialsDeleted 1, FolderDeleted 1]
          \<and> (\<forall>f \<in> set (st_folders s'). f_id f \<notin> subtree (st_folders exStore) 1)
          \<and> (\<forall>m \<in> set (st_materials s'). \<forall>g. m_folder m = Some g \<longrightarrow>
                g \<notin> subtree (st_folders exStore) 1))"
proof -
  have h1: "uniqueIds (st_folders exStore)"
    by (simp add: uniqueIds_def exStore_def exFolders_def exFolder_def)
  have h2: "ranked (\<lambda>i. 3 - i) (st_folders exStore)"
    by (simp add: ranked_def exStore_def exFolders_def exFolder_def)
  have h3: "findFolderOwned (st_folders exStore) 1 (u_id exTeacher)
              = Some (exFolder 1 ''Lecture Materials'' None ''Lecture Materials'')"
    by (simp add: exStore_def exFolders_def exFolder_def exTeacher_def)
  have same: "exStore\<lparr>st_files := [], st_protected := []\<rparr> = exStore"
    by (simp add: exStore_def)
  have run: "deleteFolderRoute 3 exTeacher 1 exStore =
    Some (Inr \<lparr>st_folders = [exFolder 4 ''Exams'' None ''Exams''],
               st_materials = [exMaterial\<lparr>m_id := 2, m_folder := Some 4\<rparr>],
               st_files = [], st_protected = [],
               st_trace = [UnlinkFailed ''uploads/3/lab.pdf'', MaterialsDeleted 3, FolderDeleted 3,
                           MaterialsDeleted 2, FolderDeleted 2, MaterialsDeleted 1, FolderDeleted 1]\<rparr>)"
    by (simp add: deleteFolderRoute_def exStore_def exFolders_def exFolder_def exTeacher_def
        exMaterial_def numeral_3_eq_3 Let_def findByIdAndDelete_def deleteMany_def unlink_def
        truthy_def orEmpty_def)
  from deleteFolder_empties_subtree[OF h1 h2 h3, of "[]" "[]"] obtain s' where
    s': "deleteFolderRoute (Suc (3 - 1)) exTeacher 1 exStore = Some (Inr s')"
      "\<forall>f \<in> set (st_folders s'). f_id f \<notin> subtree (st_folders exStore) 1"
      "\<forall>m \<in> set (st_materials s'). \<forall>g. m_folder m = Some g \<longrightarrow> g \<notin> subtree (st_folders exStore) 1"
    unfolding same by blast
  have "Suc (3 - 1) = (3::nat)" by simp
  with s'(1) run have "s' = \<lparr>st_folders = [exFolder 4 ''Exams'' None ''Exams''],
               st_materials = [exMaterial\<lparr>m_id := 2, m_folder := Some 4\<rparr>],
               st_files = [], st_protected = [],
               st_trace = [UnlinkFailed ''uploads/3/lab.pdf'', MaterialsDeleted 3, FolderDeleted 3,
                           MaterialsDeleted 2, FolderDeleted 2, MaterialsDeleted 1, FolderDeleted 1]\<rparr>"
    by simp
  then have c: "map f_id (st_folders s') = [4]" "map m_id (st_materials s') = [2]"
    "st_trace s' = [UnlinkFailed ''uploads/3/lab.pdf'', MaterialsDeleted 3, FolderDeleted 3,
                            MaterialsDeleted 2, FolderDeleted 2, MaterialsDeleted 1, FolderDeleted 1]"
    by (simp_all add: exFolder_def exMaterial_def)
  have r: "deleteFolderRoute 3 exTeacher 1 exStore = Some (Inr s')" using s'(1) by simp
  show ?thesis by (intro conjI exI[of _ s'] h1 h2 h3 r c s'(2) s'(3))
qed

section \<open>Properties of folder creation and renaming\<close>

lemma preSave_path:
  "preSave fs f = Inr f' \<Longrightarrow>
     f' = f\<lparr>f_path := f_path f'\<rparr>
     \<and> (case f_parentFolder f of
          None \<Rightarrow> f_path f' = f_name f
        | Some p \<Rightarrow> \<exists>parent. findFolder fs p = Some parent
                        \<and> f_path f' = f_path parent @ ascii ''/'' @ f_name f)"
  by (auto simp: preSave_def split: option.splits)

lemma folderSave_Inr:
  "folderSave fs d = Inr d' \<Longrightarrow> folderSchemaValid d \<and> preSave fs d = Inr d'"
  by (auto simp: folderSave_def split: if_splits)

lemma folderSave_needs_path: "f_path d = [] \<Longrightarrow> folderSave fs d = Inl ServerError"
  by (simp add: folderSave_def folderSchemaValid_def)

text \<open>
  The document that the creation route builds has no path, so \<^verbatim>\<open>save()\<close> rejects it
  before the hook can compute one: no request to create a folder is answered with
  success, and a request that passes the validators of the route and the check for a
  sibling of the same name is answered with status 500.
\<close>

lemma createFolder_never_succeeds: "createFolder fs u nid now r \<noteq> Inr x"
  by (simp add: createFolder_def folderSave_needs_path newFolder_def)

lemma createFolder_valid_request_throws:
  assumes "validFolderBody r"
    and "\<not> existsSibling fs (trim (orEmpty (fr_name r))) (fr_parentFolder r) (u_id u)"
  shows "createFolder fs u nid now r = Inl ServerError"
  using assms by (simp add: createFolder_def folderSave_needs_path newFolder_def)

text \<open>
  Claim C3, at its failing input. The specification says that right after its creation
  a folder has the path of its parent, a slash and its name, or its name at the root.
  The example teacher creates the root folder "Lecture Materials" in an empty
  collection: the document built from the request has no path, the hook alone would
  give it the path "Lecture Materials", but the route answers with a server error
  (status 500) and no folder exists with any path. The same holds for "Week 2" below
  folder 1 of the example folders, where the hook alone would give the path
  "Lecture Materials/Week 2".
\<close>

theorem createFolder_answers_server_error:
  "f_path (newFolder exTeacher 1 0 (exNewFolder None ''Lecture Materials'')) = []
   \<and> preSave [] (newFolder exTeacher 1 0 (exNewFolder None ''Lecture Materials''))
       = Inr (exFolder 1 ''Lecture Materials'' None ''Lecture Materials'')
   \<and> createFolder [] exTeacher 1 0 (exNewFolder None ''Lecture Materials'') = Inl ServerError
   \<and> map_sum id f_path (preSave exFolders (newFolder exTeacher 5 0 (exNewFolder (Some 1) ''Week 2'')))
       = Inr (ascii ''Lecture Materials/Week 2'')
   \<and> createFolder exFolders exTeacher 5 0 (exNewFolder (Some 1) ''Week 2'') = Inl ServerError"
  by (simp add: createFolder_def validFolderBody_def folderSave_def newFolder_def preSave_def
      folderSchemaValid_def existsSibling_def exFolders_def exFolder_def exTeacher_def exNewFolder_def orEmpty_def
      trim_def isSpace_def ascii_def courseEnum_def gradeEnum_def programEnum_def)

lemma applyFolderUpdate_keeps:
  "f_id (applyFolderUpdate f r) = f_id f" "f_name (applyFolderUpdate f r) = f_name f"
  "f_parentFolder (applyFolderUpdate f r) = f_parentFolder f"
  "f_path (applyFolderUpdate f r) = f_path f"
  by (simp_all add: applyFolderUpdate_def Let_def split: option.splits)

lemma saveFolder_frame:
  "length (saveFolder d fs) = length fs
   \<and> (\<forall>k < length fs. f_id (fs ! k) \<noteq> f_id d \<longrightarrow> saveFolder d fs ! k = fs ! k)"
proof (induction fs)
  case Nil
  then show ?case by simp
next
  case (Cons f fs)
  then show ?case by (auto simp: nth_Cons split: nat.splits)
qed

lemma findFolderOwned_stored: "findFolderOwned fs i ow = Some f \<Longrightarrow> i \<in> f_id ` set fs"
  by (induction fs) (auto split: if_splits)

lemma findFolder_saveFolder:
  "f_id d \<in> f_id ` set fs \<Longrightarrow> findFolder (saveFolder d fs) (f_id d) = Some d"
  by (induction fs) auto

text \<open>
  Claim C4. After a successful update that carries a name, the document answered is the
  one stored under the folder's identifier afterwards; its name is the new name without
  the white space around it, and its path is recomputed from the stored path of its
  parent and that name (the name alone at the root). The collection keeps its length,
  and every document with another identifier is exactly as before, in its place: the
  paths of the documents below the folder still spell the old name.
\<close>

theorem rename_recomputes_own_path_only:
  assumes "updateFolder fs u i r = Inr (F', fs')" and "fu_name r = Some n"
  shows "findFolder fs' i = Some F' \<and> f_id F' = i \<and> f_name F' = trim n
       \<and> (case f_parentFolder F' of
            None \<Rightarrow> f_path F' = trim n
          | Some p \<Rightarrow> \<exists>parent. findFolder fs p = Some parent
                          \<and> f_path F' = f_path parent @ ascii ''/'' @ trim n)
       \<and> length fs' = length fs
       \<and> (\<forall>k < length fs. f_id (fs ! k) \<noteq> i \<longrightarrow> fs' ! k = fs ! k)"
proof -
  from assms obtain folder where fo: "findFolderOwned fs i (u_id u) = Some folder"
    and ne: "trim n \<noteq> []"
    by (auto simp: updateFolder_def split: if_splits option.splits)
  define f0 where "f0 = (if Some (trim n) \<noteq> Some (f_name folder)
                         then folder\<lparr>f_name := trim n\<rparr> else folder)"
  have id0: "f_id f0 = i" "f_name f0 = trim n" "f_parentFolder f0 = f_parentFolder folder"
    using findFolderOwned_id[OF fo] by (auto simp: f0_def)
  from assms fo ne have sv: "folderSave fs (applyFolderUpdate f0 r) = Inr F'"
    and fs': "fs' = saveFolder F' fs"
    unfolding f0_def
    by (auto simp: updateFolder_def Let_def truthy_def orEmpty_def split: if_splits sum.splits)
  from folderSave_Inr[OF sv] have ps: "preSave fs (applyFolderUpdate f0 r) = Inr F'" by simp
  from preSave_path[OF ps] have eq: "F' = (applyFolderUpdate f0 r)\<lparr>f_path := f_path F'\<rparr>"
    and pth: "(case f_parentFolder folder of
          None \<Rightarrow> f_path F' = trim n
        | Some p \<Rightarrow> \<exists>parent. findFolder fs p = Some parent
                        \<and> f_path F' = f_path parent @ ascii ''/'' @ trim n)"
    by (auto simp: applyFolderUpdate_keeps id0 split: option.splits)
  have k: "f_id F' = i" "f_name F' = trim n" "f_parentFolder F' = f_parentFolder folder"
    by (subst eq, simp add: applyFolderUpdate_keeps id0)+
  have st: "findFolder fs' i = Some F'"
    using findFolder_saveFolder[of F' fs] findFolderOwned_stored[OF fo] k(1) fs' by simp
  show ?thesis
    using st k pth fs' saveFolder_frame[of F' fs] by simp
qed

text \<open>
  Folder 1 of the example folders is renamed to "Lectures", sent with a no-break space
  at its end: the stored name and path are "Lectures" without it; folders 2 and 3 below
  it keep their paths through "Lecture Materials", which no longer follow from the path
  of the parent.
\<close>

theorem rename_recomputes_own_path_only_witness:
  "updateFolder exFolders exTeacher 1 exRename
     = Inr (exFolder 1 ''Lectures'' None ''Lectures'',
            [exFolder 1 ''Lectures'' None ''Lectures'',
             exFolder 2 ''Week 1'' (Some 1) ''Lecture Materials/Week 1'',
             exFolder 3 ''Labs'' (Some 2) ''Lecture Materials/Week 1/Labs'',
             exFolder 4 ''Exams'' None ''Exams''])
   \<and> fu_name exRename = Some (ascii ''Lectures'' @ [0xA0])
   \<and> f_name (exFolder 1 ''Lectures'' None ''Lectures'') = trim (ascii ''Lectures'' @ [0xA0])
   \<and> f_path (exFolder 1 ''Lectures'' None ''Lectures'') = trim (ascii ''Lectures'' @ [0xA0])
   \<and> f_path (exFolder 1 ''Lectures'' None ''Lectures'') = ascii ''Lectures''
   \<and> f_path (exFolder 2 ''Week 1'' (Some 1) ''Lecture Materials/Week 1'')
        \<noteq> f_path (exFolder 1 ''Lectures'' None ''Lectures'') @ ascii ''/'' @ ascii ''Week 1''"
proof -
  have run: "updateFolder exFolders exTeacher 1 exRename
     = Inr (exFolder 1 ''Lectures'' None ''Lectures'',
            [exFolder 1 ''Lectures'' None ''Lectures'',
             exFolder 2 ''Week 1'' (Some 1) ''Lecture Materials/Week 1'',
             exFolder 3 ''Labs'' (Some 2) ''Lecture Materials/Week 1/Labs'',
             exFolder 4 ''Exams'' None ''Exams''])"
    by (simp add: updateFolder_def applyFolderUpdate_def folderSave_def preSave_def
        folderSchemaValid_def permissionEnum_def
        existsOtherSibling_def exFolders_def exFolder_def exTeacher_def exRename_def orEmpty_def
        truthy_def trim_def isSpace_def ascii_def Let_def courseEnum_def gradeEnum_def
        programEnum_def)
  have n: "fu_name exRename = Some (ascii ''Lectures'' @ [0xA0])" by (simp add: exRename_def)
  from rename_recomputes_own_path_only[OF run n] run n show ?thesis
    by (simp add: exFolder_def ascii_def trim_def isSpace_def)
qed
section \<open>Properties of the counters\<close>

lemma findById_setCounter:
  "findById ms i = Some m \<Longrightarrow> findById (setCounter c i v ms) i = Some (withCounter c v m)"
  by (induction ms) (auto simp: withCounter_def split: counter.splits)

lemma counterValue_withCounter [simp]: "counterValue c (withCounter c v m) = v"
  by (cases c) (simp_all add: counterValue_def withCounter_def)

lemma withCounter_keeps [simp]:
  "readAccess u (withCounter c v m) = readAccess u m"
  "m_filePath (withCounter c v m) = m_filePath m"
  "m_id (withCounter c v m) = m_id m"
  by (cases c; simp add: withCounter_def readAccess_def accessCheck_def m_sharedWith_def)+

lemma step_load:
  "findById ms (rq_id rq) = Some m \<Longrightarrow> requestStep files rq ms Pending = (ms, Loaded m)"
  by (simp add: requestStep_def)

lemma step_save:
  assumes "findById ms (m_id m) = Some m0" and "readAccess (rq_user rq) m"
    and "rq_counter rq = Downloads \<longrightarrow> truthy (m_filePath m) \<and> orEmpty (m_filePath m) \<in> set files"
  shows "requestStep files rq ms (Loaded m)
           = (setCounter (rq_counter rq) (m_id m) (counterValue (rq_counter rq) m + 1) ms, Done)"
  using assms
  by (cases "rq_counter rq") (simp_all add: requestStep_def saveCounter_def readAccess_def)

text \<open>
  Claim C6, as amended. Two requests that count on the same material (two downloads, or
  two views), both allowed: when the second request starts after the first has saved,
  both succeed and the counter has grown by two; when both read the document before
  either saves, both succeed and the counter has grown by one, because each writes the
  value it read plus one.
\<close>

theorem counters_read_modify_write:
  assumes f: "findById ms i = Some m"
    and r1: "rq_id r1 = i" "rq_counter r1 = c" "readAccess (rq_user r1) m"
    and r2: "rq_id r2 = i" "rq_counter r2 = c" "readAccess (rq_user r2) m"
    and fl: "c = Downloads \<longrightarrow> truthy (m_filePath m) \<and> orEmpty (m_filePath m) \<in> set files"
  shows "(\<exists>ms'. runSchedule files [r1, r2] [0, 0, 1, 1] ms [Pending, Pending] = (ms', [Done, Done])
            \<and> counterOf c ms' i = Some (counterValue c m + 2))
       \<and> (\<exists>ms'. runSchedule files [r1, r2] [0, 1, 0, 1] ms [Pending, Pending] = (ms', [Done, Done])
            \<and> counterOf c ms' i = Some (counterValue c m + 1))"
proof -
  have mi: "m_id m = i" using f by (simp add: findById_mem)
  define n where "n = counterValue c m"
  define m1 where "m1 = withCounter c (n + 1) m"
  define ms1 where "ms1 = setCounter c i (n + 1) ms"
  have f1: "findById ms1 i = Some m1"
    unfolding ms1_def m1_def by (rule findById_setCounter[OF f])
  have m1i: "m_id m1 = i" using f1 by (simp add: findById_mem)
  have n1: "counterValue c m1 = n + 1" by (simp add: m1_def)
  have a1: "readAccess u m1 = readAccess u m" for u by (simp add: m1_def)
  have p1: "m_filePath m1 = m_filePath m" by (simp add: m1_def)
  have l1: "requestStep files r1 ms Pending = (ms, Loaded m)" using f r1 by (simp add: step_load)
  have l2: "requestStep files r2 ms Pending = (ms, Loaded m)" using f r2 by (simp add: step_load)
  have l2': "requestStep files r2 ms1 Pending = (ms1, Loaded m1)" using f1 r2 by (simp add: step_load)
  have s1: "requestStep files r1 ms (Loaded m) = (ms1, Done)"
    using step_save[of ms m m r1 files] f r1 fl mi by (simp add: ms1_def n_def)
  have s2: "requestStep files r2 ms1 (Loaded m) = (setCounter c i (n + 1) ms1, Done)"
    using step_save[of ms1 m m1 r2 files] f1 r2 fl mi by (simp add: n_def)
  have s2': "requestStep files r2 ms1 (Loaded m1) = (setCounter c i (n + 2) ms1, Done)"
    using step_save[of ms1 m1 m1 r2 files] f1 r2 fl m1i n1 a1 p1 by simp
  have seq: "runSchedule files [r1, r2] [0, 0, 1, 1] ms [Pending, Pending]
               = (setCounter c i (n + 2) ms1, [Done, Done])"
    by (simp add: l1 s1 l2' s2')
  have ovl: "runSchedule files [r1, r2] [0, 1, 0, 1] ms [Pending, Pending]
               = (setCounter c i (n + 1) ms1, [Done, Done])"
    by (simp add: l1 l2 s1 s2)
  have "counterOf c (setCounter c i v ms1) i = Some v" for v
    using findById_setCounter[OF f1, of c v] by (simp add: counterOf_def)
  then show ?thesis
    using seq ovl by (simp add: n_def)
qed


lemma saveMaterial_setCounter:
  "findById ms i = Some m \<Longrightarrow> saveMaterial (withCounter c v m) ms = setCounter c i v ms"
  by (induction ms) (auto dest: findById_mem)

text \<open>
  A download request that runs alone is the download handler.
\<close>

lemma single_download_request:
  assumes "rq_counter rq = Downloads"
  shows "(case downloadMaterial ms files (rq_user rq) (rq_id rq) of
            Inl e \<Rightarrow> runSchedule files [rq] [0, 0] ms [Pending] = (ms, [Failed e])
          | Inr (m', ms') \<Rightarrow> runSchedule files [rq] [0, 0] ms [Pending] = (ms', [Done]))"
proof (cases "findById ms (rq_id rq)")
  case None
  then show ?thesis by (simp add: downloadMaterial_def requestStep_def)
next
  case (Some m)
  have mi: "m_id m = rq_id rq" using Some by (simp add: findById_mem)
  have w: "m\<lparr>m_downloadCount := Suc (m_downloadCount m)\<rparr> = withCounter Downloads (m_downloadCount m + 1) m"
    by (simp add: withCounter_def)
  show ?thesis
    using Some assms mi
    by (auto simp: downloadMaterial_def requestStep_def saveCounter_def truthy_def orEmpty_def
        counterValue_def Let_def w saveMaterial_setCounter split: option.splits)
qed

text \<open>
  The hypotheses of C6 hold for two downloads of the example material made public, by
  the example student, with the file on disk; run one after the other they leave the
  counter at 2.
\<close>

theorem counters_read_modify_write_witness:
  "findById [exMaterial\<lparr>m_isPublic := True\<rparr>] 1 = Some (exMaterial\<lparr>m_isPublic := True\<rparr>)
   \<and> rq_id exDownload = 1 \<and> rq_counter exDownload = Downloads
   \<and> readAccess (rq_user exDownload) (exMaterial\<lparr>m_isPublic := True\<rparr>)
   \<and> truthy (m_filePath (exMaterial\<lparr>m_isPublic := True\<rparr>))
   \<and> orEmpty (m_filePath (exMaterial\<lparr>m_isPublic := True\<rparr>)) \<in> set [''uploads/3/lab.pdf'']
   \<and> (\<exists>ms'. runSchedule [''uploads/3/lab.pdf''] [exDownload, exDownload] [0, 0, 1, 1]
               [exMaterial\<lparr>m_isPublic := True\<rparr>] [Pending, Pending] = (ms', [Done, Done])
            \<and> counterOf Downloads ms' 1 = Some 2)"
proof -
  have h1: "findById [exMaterial\<lparr>m_isPublic := True\<rparr>] 1 = Some (exMaterial\<lparr>m_isPublic := True\<rparr>)"
    by (simp add: exMaterial_def)
  have h2: "rq_id exDownload = 1" and h3: "rq_counter exDownload = Downloads"
    by (simp_all add: exDownload_def)
  have h4: "readAccess (rq_user exDownload) (exMaterial\<lparr>m_isPublic := True\<rparr>)"
    by (simp add: readAccess_def accessCheck_def exDownload_def exStudent_def)
  have h5: "truthy (m_filePath (exMaterial\<lparr>m_isPublic := True\<rparr>))
            \<and> orEmpty (m_filePath (exMaterial\<lparr>m_isPublic := True\<rparr>)) \<in> set [''uploads/3/lab.pdf'']"
    by (simp add: truthy_def orEmpty_def exMaterial_def)
  then have h5': "Downloads = Downloads \<longrightarrow> truthy (m_filePath (exMaterial\<lparr>m_isPublic := True\<rparr>))
            \<and> orEmpty (m_filePath (exMaterial\<lparr>m_isPublic := True\<rparr>)) \<in> set [''uploads/3/lab.pdf'']"
    by simp
  have v: "counterValue Downloads (exMaterial\<lparr>m_isPublic := True\<rparr>) = 0"
    by (simp add: counterValue_def exMaterial_def)
  from counters_read_modify_write[OF h1 h2 h3 h4 h2 h3 h4 h5'] v
  have "\<exists>ms'. runSchedule [''uploads/3/lab.pdf''] [exDownload, exDownload] [0, 0, 1, 1]
               [exMaterial\<lparr>m_isPublic := True\<rparr>] [Pending, Pending] = (ms', [Done, Done])
            \<and> counterOf Downloads ms' 1 = Some 2"
    by (simp del: runSchedule.simps add: numeral_2_eq_2)
  with h1 h2 h3 h4 h5 show ?thesis by (simp del: runSchedule.simps)
qed

text \<open>
  Claim C6 as stated fails: two overlapping downloads of the example material both
  succeed and leave the download counter at 1, and two overlapping views leave the
  view counter at 1, where both counters started at 0.
\<close>

theorem overlapping_requests_lose_update_counterexample:
  "runSchedule [''uploads/3/lab.pdf''] [exDownload, exDownload] [0, 1, 0, 1]
       [exMaterial\<lparr>m_isPublic := True\<rparr>] [Pending, Pending]
     = ([exMaterial\<lparr>m_isPublic := True, m_downloadCount := 1\<rparr>], [Done, Done])
   \<and> runSchedule [] [exView, exView] [0, 1, 0, 1]
       [exMaterial\<lparr>m_isPublic := True\<rparr>] [Pending, Pending]
     = ([exMaterial\<lparr>m_isPublic := True, m_viewCount := 1\<rparr>], [Done, Done])
   \<and> m_downloadCount (exMaterial\<lparr>m_isPublic := True\<rparr>) = 0
   \<and> m_viewCount (exMaterial\<lparr>m_isPublic := True\<rparr>) = 0"
  by (simp add: requestStep_def saveCounter_def counterValue_def withCounter_def accessCheck_def
      truthy_def orEmpty_def exDownload_def exView_def exStudent_def exMaterial_def)

section \<open>Properties of the attendance rate\<close>

lemma Math_round_bounds: "real_of_int (Math_round y) \<le> y + 1 / 2 \<and> y - 1 / 2 < real_of_int (Math_round y)"
  unfolding Math_round_def by linarith

text \<open>
  An integer within one half of \<open>100 a / t + e\<close>, where the error \<open>e\<close> is below
  \<open>1 / (2 t)\<close>, is within one half of \<open>100 a / t\<close>: twice the quotient times
  \<open>t\<close> is an integer, so the error cannot carry the rounding past a neighbour.
\<close>

lemma near_integer_grid:
  fixes r :: int and a t :: nat and e :: real
  assumes t: "0 < t" and e: "\<bar>e\<bar> * real t < 1 / 2"
    and up: "real_of_int r \<le> 100 * real a / real t + e + 1 / 2"
    and lo: "100 * real a / real t + e - 1 / 2 < real_of_int r"
  shows "\<bar>real_of_int r - 100 * real a / real t\<bar> \<le> 1 / 2"
proof -
  have tp: "0 < real t" using t by simp
  have up': "real_of_int r * (2 * real t) \<le> 200 * real a + 2 * (e * real t) + real t"
  proof -
    have "real_of_int r * (2 * real t) \<le> (100 * real a / real t + e + 1 / 2) * (2 * real t)"
      using up tp by (intro mult_right_mono) simp_all
    also have "\<dots> = 200 * real a + 2 * (e * real t) + real t"
      using tp by (simp add: field_simps)
    finally show ?thesis .
  qed
  have lo': "200 * real a + 2 * (e * real t) - real t < real_of_int r * (2 * real t)"
  proof -
    have "(100 * real a / real t + e - 1 / 2) * (2 * real t) < real_of_int r * (2 * real t)"
      using lo tp by (intro mult_strict_right_mono) simp_all
    moreover have "(100 * real a / real t + e - 1 / 2) * (2 * real t) = 200 * real a + 2 * (e * real t) - real t"
      using tp by (simp add: field_simps)
    ultimately show ?thesis by simp
  qed
  have "\<bar>e * real t\<bar> < 1 / 2" using e tp by (simp add: abs_mult)
  then have e2: "2 * (e * real t) < 1" "- 1 < 2 * (e * real t)" by linarith+
  have "real_of_int (r * (2 * int t)) < real_of_int (200 * int a + int t + 1)"
    using up' e2 by simp
  then have i1: "r * (2 * int t) < 200 * int a + int t + 1" by (simp only: of_int_less_iff)
  have "real_of_int (200 * int a - int t - 1) < real_of_int (r * (2 * int t))"
    using lo' e2 by simp
  then have i2: "200 * int a - int t - 1 < r * (2 * int t)" by (simp only: of_int_less_iff)
  from i1 have "r * (2 * int t) \<le> 200 * int a + int t" by simp
  then have "real_of_int (r * (2 * int t)) \<le> real_of_int (200 * int a + int t)" by (simp only: of_int_le_iff)
  then have u: "real_of_int r * (2 * real t) \<le> 200 * real a + real t" by simp
  from i2 have "200 * int a - int t \<le> r * (2 * int t)" by simp
  then have "real_of_int (200 * int a - int t) \<le> real_of_int (r * (2 * int t))" by (simp only: of_int_le_iff)
  then have l: "200 * real a - real t \<le> real_of_int r * (2 * real t)" by simp
  have "(real_of_int r - 100 * real a / real t) * (2 * real t) = real_of_int r * (2 * real t) - 200 * real a"
    using tp by (simp add: field_simps)
  with u l have "\<bar>(real_of_int r - 100 * real a / real t) * (2 * real t)\<bar> \<le> real t" by simp
  then have "\<bar>real_of_int r - 100 * real a / real t\<bar> * (2 * real t) \<le> (1 / 2) * (2 * real t)"
    using tp by (simp add: abs_mult)
  then show ?thesis using tp by simp
qed


text \<open>
  The two rounding errors of the division and the multiplication add up to at most
  \<open>300 a / (t 2\<^sup>5\<^sup>3)\<close>, far below \<open>1 / (2 t)\<close> for counts below \<open>2\<^sup>3\<^sup>2\<close>.
\<close>

lemma rate_core:
  assumes dv: "correctlyRounded exactDiv fdiv" and ml: "correctlyRounded exactMul fmul"
    and a: "a < 2 ^ 32" and t: "0 < t" "t < 2 ^ 32"
  shows "\<bar>real_of_int (Math_round (fmul (fdiv (real a) (real t)) 100)) - 100 * real a / real t\<bar> \<le> 1 / 2"
proof -
  define q where "q = real a / real t"
  define d where "d = fdiv (real a) (real t)"
  define y where "y = fmul d 100"
  define u :: real where "u = 1 / 2 ^ 53"
  have tp: "0 < real t" "real t < 2 ^ 32" using t by simp_all
  have ar: "real a < 2 ^ 32" using a by simp
  have q0: "0 \<le> q" by (simp add: q_def)
  have qt: "q * real t = real a" using tp by (simp add: q_def)
  have dv': "real a / real t = 0 \<or> (1 / 2 ^ 64 \<le> \<bar>real a / real t\<bar> \<and> \<bar>real a / real t\<bar> \<le> 2 ^ 64)
               \<longrightarrow> \<bar>fdiv (real a) (real t) - real a / real t\<bar> \<le> \<bar>real a / real t\<bar> / 2 ^ 53"
    using dv unfolding correctlyRounded_def exactDiv_def by blast
  have ml': "d * 100 = 0 \<or> (1 / 2 ^ 64 \<le> \<bar>d * 100\<bar> \<and> \<bar>d * 100\<bar> \<le> 2 ^ 64)
               \<longrightarrow> \<bar>fmul d 100 - d * 100\<bar> \<le> \<bar>d * 100\<bar> / 2 ^ 53"
    using ml unfolding correctlyRounded_def exactMul_def by blast
  have udiv: "z / 2 ^ 53 = z * u" for z by (simp add: u_def)
  have dvi: "\<bar>d - q\<bar> \<le> \<bar>q\<bar> * u"
    if "q = 0 \<or> (1 / 2 ^ 64 \<le> \<bar>q\<bar> \<and> \<bar>q\<bar> \<le> 2 ^ 64)"
    using dv' that unfolding d_def[symmetric] q_def[symmetric] udiv by blast
  have mli: "\<bar>y - d * 100\<bar> \<le> \<bar>d * 100\<bar> * u"
    if "d * 100 = 0 \<or> (1 / 2 ^ 64 \<le> \<bar>d * 100\<bar> \<and> \<bar>d * 100\<bar> \<le> 2 ^ 64)"
    using ml' that unfolding y_def[symmetric] udiv by blast
  have e: "\<bar>y - 100 * q\<bar> * real t < 1 / 2"
  proof (cases "a = 0")
    case True
    then have qz: "q = 0" by (simp add: q_def)
    with dvi have "d = 0" by simp
    with mli have "y = 0" by simp
    with qz show ?thesis by simp
  next
    case False
    then have a1: "1 \<le> real a" by simp
    have qlo: "1 / 2 ^ 32 \<le> q"
    proof -
      have "1 / 2 ^ 32 \<le> 1 / real t" using tp by (simp add: frac_le)
      also have "\<dots> \<le> real a / real t" using a1 tp by (simp add: divide_right_mono)
      finally show ?thesis by (simp add: q_def)
    qed
    have qhi: "q \<le> 2 ^ 32"
    proof -
      have "real t \<ge> 1" using t by simp
      then have "real a / real t \<le> real a" using a1 by (simp add: field_simps)
      then show ?thesis using ar by (simp add: q_def)
    qed
    have dq: "\<bar>d - q\<bar> \<le> q * u"
      using dvi qlo qhi q0 by simp
    have u_small: "0 < u" "u \<le> 1 / 2" by (simp_all add: u_def)
    have qu: "q * u \<le> q * (1 / 2)" using q0 u_small by (intro mult_left_mono) simp_all
    have dlo: "q / 2 \<le> d" and dhi: "d \<le> 2 * q"
      using dq qu q0 by linarith+
    have d0: "0 \<le> d" using dlo q0 by linarith
    have "1 / 2 ^ 64 \<le> d * 100 \<and> d * 100 \<le> 2 ^ 64"
      using dlo dhi qlo qhi by simp
    then have yd: "\<bar>y - d * 100\<bar> \<le> d * 100 * u"
      using mli d0 by simp
    have du: "d * 100 * u \<le> 200 * q * u"
    proof -
      have "d * 100 \<le> 200 * q" using dhi by simp
      then show ?thesis using u_small by (intro mult_right_mono) simp_all
    qed
    have "\<bar>y - 100 * q\<bar> = \<bar>(y - d * 100) + 100 * (d - q)\<bar>" by (simp add: algebra_simps)
    also have "\<dots> \<le> \<bar>y - d * 100\<bar> + \<bar>100 * (d - q)\<bar>" by (rule abs_triangle_ineq)
    also have "\<dots> = \<bar>y - d * 100\<bar> + 100 * \<bar>d - q\<bar>" by (simp only: abs_mult abs_numeral)
    also have "\<dots> \<le> 200 * q * u + 100 * (q * u)"
    proof (rule add_mono)
      show "\<bar>y - d * 100\<bar> \<le> 200 * q * u" using yd du by (rule order_trans)
      show "100 * \<bar>d - q\<bar> \<le> 100 * (q * u)" using dq by simp
    qed
    also have "\<dots> = 300 * q * u" by simp
    finally have "\<bar>y - 100 * q\<bar> \<le> 300 * q * u" .
    then have "\<bar>y - 100 * q\<bar> * real t \<le> 300 * q * u * real t"
      using tp by (intro mult_right_mono) simp_all
    also have "\<dots> = 300 * real a * u" using qt by (simp add: mult.assoc mult.left_commute mult.commute)
    also have "\<dots> < 1 / 2" using ar by (simp add: u_def)
    finally show ?thesis .
  qed
  have "\<bar>(y - 100 * q)\<bar> * real t < 1 / 2" by (rule e)
  moreover have "real_of_int (Math_round y) \<le> 100 * real a / real t + (y - 100 * q) + 1 / 2"
    using Math_round_bounds[of y] by (simp add: q_def)
  moreover have "100 * real a / real t + (y - 100 * q) - 1 / 2 < real_of_int (Math_round y)"
    using Math_round_bounds[of y] by (simp add: q_def)
  ultimately show ?thesis
    using near_integer_grid[OF t(1)] unfolding y_def d_def by blast
qed


text \<open>
  Claim C10. With the double-precision division and multiplication (each correct up to
  the relative error the standard allows) and fewer than \<open>2\<^sup>3\<^sup>2\<close> sessions, the
  attendance rate is 0 when the student has no eligible past session, and otherwise it
  is an integer nearest to the number of attended sessions divided by the number of
  eligible past sessions, times 100: it differs from that value by at most one half.
\<close>

theorem attendanceRate_nearest_integer:
  assumes "correctlyRounded exactDiv fdiv" and "correctlyRounded exactMul fmul" and "length zs < 2 ^ 32"
  shows "(totalSessions zs u now = 0 \<longrightarrow> attendanceRate fdiv fmul zs u now = 0)
       \<and> (0 < totalSessions zs u now \<longrightarrow>
            \<bar>real_of_int (attendanceRate fdiv fmul zs u now)
               - real (length (sessionsAttended zs u)) / real (totalSessions zs u now) * 100\<bar> \<le> 1 / 2)"
proof -
  have a: "length (sessionsAttended zs u) < 2 ^ 32"
    using assms(3) length_filter_le[of _ zs] unfolding sessionsAttended_def
    by (meson le_less_trans)
  have t: "totalSessions zs u now < 2 ^ 32"
    using assms(3) length_filter_le[of _ zs] unfolding totalSessions_def
    by (meson le_less_trans)
  have z: "totalSessions zs u now = 0 \<Longrightarrow> attendanceRate fdiv fmul zs u now = 0"
    by (simp add: attendanceRate_def Math_round_def)
  have p: "\<bar>real_of_int (attendanceRate fdiv fmul zs u now)
               - real (length (sessionsAttended zs u)) / real (totalSessions zs u now) * 100\<bar> \<le> 1 / 2"
    if "0 < totalSessions zs u now"
  proof -
    have c: "real (length (sessionsAttended zs u)) / real (totalSessions zs u now) * 100
             = 100 * real (length (sessionsAttended zs u)) / real (totalSessions zs u now)"
      by simp
    have r: "attendanceRate fdiv fmul zs u now
             = Math_round (fmul (fdiv (real (length (sessionsAttended zs u)))
                                      (real (totalSessions zs u now))) 100)"
      using that by (simp add: attendanceRate_def)
    show ?thesis unfolding c r by (rule rate_core[OF assms(1,2) a that t])
  qed
  show ?thesis using z p by blast
qed

lemma exact_correctlyRounded: "correctlyRounded f f"
  by (simp add: correctlyRounded_def)

text \<open>
  Exact arithmetic is correctly rounded. With it, the example student, who attended one
  of two eligible past sessions, has rate 50, and rate 0 when there is no session.
\<close>

theorem attendanceRate_nearest_integer_witness:
  "correctlyRounded exactDiv exactDiv \<and> correctlyRounded exactMul exactMul \<and> length exSessions < 2 ^ 32
   \<and> totalSessions exSessions exStudent 200 = 2
   \<and> length (sessionsAttended exSessions exStudent) = 1
   \<and> attendanceRate exactDiv exactMul exSessions exStudent 200 = 50
   \<and> attendanceRate exactDiv exactMul [] exStudent 200 = 0"
proof -
  have h1: "correctlyRounded exactDiv exactDiv" and h2: "correctlyRounded exactMul exactMul"
    by (rule exact_correctlyRounded)+
  have h3: "length exSessions < 2 ^ 32" by (simp add: exSessions_def)
  have h3': "length ([] :: zoomSession list) < 2 ^ 32" by simp
  have t: "totalSessions exSessions exStudent 200 = 2"
    by (simp add: totalSessions_def sessionEligible_def exSessions_def exSession_def exStudent_def)
  have a: "length (sessionsAttended exSessions exStudent) = 1"
    by (simp add: sessionsAttended_def exSessions_def exSession_def exStudent_def)
  have t0: "totalSessions [] exStudent 200 = 0" by (simp add: totalSessions_def)
  from attendanceRate_nearest_integer[OF h1 h2 h3, of exStudent 200] t a
  have "\<bar>real_of_int (attendanceRate exactDiv exactMul exSessions exStudent 200) - 50\<bar> \<le> 1 / 2" by simp
  then have r: "attendanceRate exactDiv exactMul exSessions exStudent 200 = 50" by linarith
  from attendanceRate_nearest_integer[OF h1 h2 h3', of exStudent 200] t0
  have r0: "attendanceRate exactDiv exactMul [] exStudent 200 = 0" by simp
  show ?thesis using h1 h2 h3 t a r r0 by simp
qed


end
